theory Spec2Isabelle
  imports Complex_Main
begin

section \<open>JavaScript numbers\<close>

text \<open>
  The scoring code of \<^verbatim>\<open>frontend/src/components/SunsetCard.tsx\<close> computes on
  JavaScript numbers, that is on IEEE-754 binary64. A number is a finite value or one of
  the three special values; a finite value is carried as the real number it denotes. The
  sign of zero is not represented (no operation of the scoring code tells the two zeros
  apart).
\<close>

datatype jsnum = Fin real | PInf | NInf | NaN

subsection \<open>Rounding to binary64\<close>

text \<open>
  \<open>pow2 e\<close> is \<open>2\<close> to the power \<open>e\<close>. \<open>rhe\<close> rounds a real to the nearest integer, to
  the even one at a tie. \<open>expo x\<close> is the binary exponent of \<open>x\<close>, not below that of the
  smallest normal number, so that \<open>pow2 (expo x - 52)\<close> is the spacing of the doubles around
  \<open>x\<close>; it is found by halving a value of at least 1 until it is below 2, and by doubling a
  value below 1 until it is at least 1 or the exponent is -1022. \<open>rnd x\<close> is the multiple
  of that spacing nearest to \<open>x\<close>, ties to even: the round-to-nearest of binary64 with the
  exponent unbounded above.
\<close>

definition pow2 :: "int \<Rightarrow> real" where
  "pow2 e = (if 0 \<le> e then 2 ^ nat e else 1 / 2 ^ nat (- e))"

definition rhe :: "real \<Rightarrow> int" where
  "rhe y =
     (let f = \<lfloor>y\<rfloor>; d = y - of_int f
      in if d < 1 / 2 then f else if 1 / 2 < d then f + 1 else if even f then f else f + 1)"

function halvings :: "real \<Rightarrow> int" where
  "halvings x = (if x < 2 then 0 else 1 + halvings (x / 2))"
  by auto
termination
proof (relation "measure (\<lambda>x. nat \<lfloor>x\<rfloor>)")
  show "wf (measure (\<lambda>x::real. nat \<lfloor>x\<rfloor>))"
    by simp
next
  fix x :: real
  assume "\<not> x < 2"
  then have "\<lfloor>x / 2\<rfloor> < \<lfloor>x\<rfloor>" "0 < \<lfloor>x\<rfloor>"
    by linarith+
  then show "(x / 2, x) \<in> measure (\<lambda>x. nat \<lfloor>x\<rfloor>)"
    by simp
qed

function doublings :: "int \<Rightarrow> real \<Rightarrow> int" where
  "doublings e x = (if 1 \<le> x \<or> e \<le> - 1022 then e else doublings (e - 1) (x * 2))"
  by auto
termination
  by (relation "measure (\<lambda>(e, x). nat (e + 1022))") auto

declare halvings.simps [simp del] doublings.simps [simp del]

definition expo :: "real \<Rightarrow> int" where
  "expo x = (if 1 \<le> \<bar>x\<bar> then halvings \<bar>x\<bar> else doublings 0 \<bar>x\<bar>)"

definition rnd :: "real \<Rightarrow> real" where
  "rnd x = of_int (rhe (x / pow2 (expo x - 52))) * pow2 (expo x - 52)"

text \<open>
  \<open>Number.MAX_VALUE\<close> is \<open>(2 ^ 53 - 1) * 2 ^ 971\<close>. The result of an operation is its
  exact value rounded; a rounded value beyond \<open>MAX_VALUE\<close> (it is then \<open>2 ^ 1024\<close> or more)
  is an infinity.
\<close>

definition MAX_VALUE :: real where
  "MAX_VALUE = (2 ^ 53 - 1) * 2 ^ 971"

definition binary64 :: "real \<Rightarrow> jsnum" where
  "binary64 x =
     (if MAX_VALUE < rnd x then PInf else if rnd x < - MAX_VALUE then NInf else Fin (rnd x))"

text \<open>A decimal literal of the source denotes the double nearest to it.\<close>

definition number_literal :: "real \<Rightarrow> jsnum" where
  "number_literal x = binary64 x"

subsection \<open>Operations\<close>

text \<open>\<open>Number.isFinite\<close> on a value whose type is already number.\<close>

fun isFinite :: "jsnum \<Rightarrow> bool" where
  "isFinite (Fin r) = True"
| "isFinite PInf = False"
| "isFinite NInf = False"
| "isFinite NaN = False"

fun js_neg :: "jsnum \<Rightarrow> jsnum" where
  "js_neg (Fin r) = Fin (- r)"
| "js_neg PInf = NInf"
| "js_neg NInf = PInf"
| "js_neg NaN = NaN"

text \<open>The operator \<open>+\<close> on numbers: the exact sum, rounded.\<close>

fun js_add :: "jsnum \<Rightarrow> jsnum \<Rightarrow> jsnum" where
  "js_add NaN b = NaN"
| "js_add a NaN = NaN"
| "js_add (Fin a) (Fin b) = binary64 (a + b)"
| "js_add PInf NInf = NaN"
| "js_add NInf PInf = NaN"
| "js_add PInf b = PInf"
| "js_add a PInf = PInf"
| "js_add NInf b = NInf"
| "js_add a NInf = NInf"

text \<open>The operator \<open>-\<close> on numbers.\<close>

definition js_sub :: "jsnum \<Rightarrow> jsnum \<Rightarrow> jsnum" where
  "js_sub a b = js_add a (js_neg b)"

text \<open>
  The operator \<open>*\<close> on numbers: the exact product, rounded; an infinity times zero is
  NaN.
\<close>

fun js_mul :: "jsnum \<Rightarrow> jsnum \<Rightarrow> jsnum" where
  "js_mul NaN b = NaN"
| "js_mul a NaN = NaN"
| "js_mul (Fin a) (Fin b) = binary64 (a * b)"
| "js_mul PInf (Fin b) = (if b = 0 then NaN else if 0 < b then PInf else NInf)"
| "js_mul NInf (Fin b) = (if b = 0 then NaN else if 0 < b then NInf else PInf)"
| "js_mul (Fin a) PInf = (if a = 0 then NaN else if 0 < a then PInf else NInf)"
| "js_mul (Fin a) NInf = (if a = 0 then NaN else if 0 < a then NInf else PInf)"
| "js_mul PInf PInf = PInf"
| "js_mul NInf NInf = PInf"
| "js_mul PInf NInf = NInf"
| "js_mul NInf PInf = NInf"

text \<open>\<open>Math.abs\<close>.\<close>

fun js_abs :: "jsnum \<Rightarrow> jsnum" where
  "js_abs (Fin r) = Fin \<bar>r\<bar>"
| "js_abs PInf = PInf"
| "js_abs NInf = PInf"
| "js_abs NaN = NaN"

text \<open>\<open>Math.max\<close> and \<open>Math.min\<close> of two numbers: NaN if either argument is NaN.\<close>

fun js_max :: "jsnum \<Rightarrow> jsnum \<Rightarrow> jsnum" where
  "js_max NaN b = NaN"
| "js_max a NaN = NaN"
| "js_max PInf b = PInf"
| "js_max a PInf = PInf"
| "js_max NInf b = b"
| "js_max a NInf = a"
| "js_max (Fin a) (Fin b) = Fin (max a b)"

fun js_min :: "jsnum \<Rightarrow> jsnum \<Rightarrow> jsnum" where
  "js_min NaN b = NaN"
| "js_min a NaN = NaN"
| "js_min NInf b = NInf"
| "js_min a NInf = NInf"
| "js_min PInf b = b"
| "js_min a PInf = a"
| "js_min (Fin a) (Fin b) = Fin (min a b)"

text \<open>
  \<open>Math.round\<close>: the integer nearest to the argument, the larger one at a tie, that is
  \<open>floor (x + 0.5)\<close>; the special values are returned as they are.
\<close>

fun js_round :: "jsnum \<Rightarrow> jsnum" where
  "js_round (Fin r) = Fin (of_int \<lfloor>r + 1 / 2\<rfloor>)"
| "js_round PInf = PInf"
| "js_round NInf = NInf"
| "js_round NaN = NaN"

section \<open>The forecast reading\<close>

text \<open>
  A field of \<open>SunsetForecastResponse["predicted"]\<close> is optional, and \<open>toFiniteNumber\<close>
  takes \<open>number | undefined | null\<close>.
\<close>

datatype jsval = Undefined | Null | Num jsnum

record predicted =
  cloudCover_pct :: jsval
  humidity_pct :: jsval
  pm25_ugm3 :: jsval

section \<open>The scoring functions\<close>

text \<open>
  \<^verbatim>\<open>
  function toFiniteNumber(value: number | undefined | null, fallback: number) {
    if (typeof value === "number" && Number.isFinite(value)) {
      return value;
    }
    return fallback;
  }
  \<close>
\<close>

fun toFiniteNumber :: "jsval \<Rightarrow> jsnum \<Rightarrow> jsnum" where
  "toFiniteNumber (Num n) fallback = (if isFinite n then n else fallback)"
| "toFiniteNumber Undefined fallback = fallback"
| "toFiniteNumber Null fallback = fallback"

text \<open>
  \<^verbatim>\<open>
  function clampScore(value: number) {
    if (!Number.isFinite(value)) return 0;
    return Math.max(0, Math.min(100, Math.round(value)));
  }
  \<close>
\<close>

definition clampScore :: "jsnum \<Rightarrow> jsnum" where
  "clampScore value =
     (if \<not> isFinite value then Fin 0
      else js_max (Fin 0) (js_min (Fin 100) (js_round value)))"

text \<open>
  \<^verbatim>\<open>
  function calculateSunsetScore(predicted?: ...): number | null {
    if (!predicted) return null;
    const clouds = toFiniteNumber(predicted.cloudCover_pct, 60);
    const humidity = toFiniteNumber(predicted.humidity_pct, 65);
    const pm = toFiniteNumber(predicted.pm25_ugm3, 12);

    const cloudTerm = Math.max(0, 35 - Math.abs(45 - clouds) * 0.7);
    const humidityTerm = Math.max(0, 20 - Math.max(0, humidity - 55) * 0.5);
    const pmTerm = Math.max(0, 30 - Math.max(0, pm - 12) * 2);
    const baseline = 15;

    return clampScore(cloudTerm + humidityTerm + pmTerm + baseline);
  }
  \<close>
  The three terms are named as functions of the normalised reading, and \<open>rawScore\<close> is
  the argument passed to \<open>clampScore\<close>. The literals 0.5 and 2 and the integer literals
  are doubles; 0.7 is not, and is read as the double nearest to it. An absent \<open>predicted\<close> is \<open>None\<close>, and so is
  the result \<open>null\<close>.
\<close>

definition cloudTerm :: "jsnum \<Rightarrow> jsnum" where
  "cloudTerm clouds =
     js_max (Fin 0) (js_sub (Fin 35) (js_mul (js_abs (js_sub (Fin 45) clouds)) (number_literal (7 / 10))))"

definition humidityTerm :: "jsnum \<Rightarrow> jsnum" where
  "humidityTerm humidity =
     js_max (Fin 0) (js_sub (Fin 20) (js_mul (js_max (Fin 0) (js_sub humidity (Fin 55))) (Fin (1 / 2))))"

definition pmTerm :: "jsnum \<Rightarrow> jsnum" where
  "pmTerm pm =
     js_max (Fin 0) (js_sub (Fin 30) (js_mul (js_max (Fin 0) (js_sub pm (Fin 12))) (Fin 2)))"

definition baseline :: jsnum where
  "baseline = Fin 15"

definition rawScore :: "predicted \<Rightarrow> jsnum" where
  "rawScore p =
     (let clouds = toFiniteNumber (cloudCover_pct p) (Fin 60);
          humidity = toFiniteNumber (humidity_pct p) (Fin 65);
          pm = toFiniteNumber (pm25_ugm3 p) (Fin 12)
      in js_add (js_add (js_add (cloudTerm clouds) (humidityTerm humidity)) (pmTerm pm)) baseline)"

definition calculateSunsetScore :: "predicted option \<Rightarrow> jsnum option" where
  "calculateSunsetScore p =
     (case p of None \<Rightarrow> None | Some reading \<Rightarrow> Some (clampScore (rawScore reading)))"

section \<open>The formula of the specification\<close>

text \<open>
  The terms as the specification writes them, in exact real arithmetic.
\<close>

definition spec_cloudTerm :: "real \<Rightarrow> real" where
  "spec_cloudTerm c = max 0 (35 - \<bar>45 - c\<bar> * 0.7)"

definition spec_humidityTerm :: "real \<Rightarrow> real" where
  "spec_humidityTerm h = max 0 (20 - max 0 (h - 55) * 0.5)"

definition spec_pmTerm :: "real \<Rightarrow> real" where
  "spec_pmTerm p = max 0 (30 - max 0 (p - 12) * 2)"

definition spec_rawScore :: "real \<Rightarrow> real \<Rightarrow> real \<Rightarrow> real" where
  "spec_rawScore c h p = spec_cloudTerm c + spec_humidityTerm h + spec_pmTerm p + 15"

text \<open>
  Normalisation as the specification words it: a field that is absent, null or not a
  finite number is replaced by the fallback, any other value is kept.
\<close>

definition spec_normalize :: "jsval \<Rightarrow> real \<Rightarrow> real" where
  "spec_normalize v fallback = (case v of Num (Fin r) \<Rightarrow> r | _ \<Rightarrow> fallback)"

text \<open>
  The same terms with every operation rounded to binary64 and 0.7 replaced by the double
  nearest to it, \<open>3152519739159347 / 2 ^ 52\<close>.
\<close>

definition double_0_7 :: real where
  "double_0_7 = 3152519739159347 / 4503599627370496"

definition rounded_cloudTerm :: "real \<Rightarrow> real" where
  "rounded_cloudTerm c = max 0 (rnd (35 - rnd (\<bar>rnd (45 - c)\<bar> * double_0_7)))"

definition rounded_humidityTerm :: "real \<Rightarrow> real" where
  "rounded_humidityTerm h = max 0 (rnd (20 - rnd (max 0 (rnd (h - 55)) * (1 / 2))))"

definition rounded_pmTerm :: "real \<Rightarrow> real" where
  "rounded_pmTerm p = max 0 (rnd (30 - rnd (max 0 (rnd (p - 12)) * 2)))"

definition rounded_rawScore :: "real \<Rightarrow> real \<Rightarrow> real \<Rightarrow> real" where
  "rounded_rawScore c h p =
     rnd (rnd (rnd (rounded_cloudTerm c + rounded_humidityTerm h) + rounded_pmTerm p) + 15)"

text \<open>Half the spacing of the doubles between 128 and 256: the error bound of one rounding
  of a value below 256.\<close>

definition eps46 :: real where
  "eps46 = 1 / 2 ^ 46"

section \<open>Rounding is monotone\<close>

lemma pow2_powr: "pow2 e = 2 powr (of_int e)"
  by (simp add: pow2_def powr_int)

lemma pow2_pos: "0 < pow2 e"
  by (simp add: pow2_powr)

lemma pow2_add: "pow2 (a + b) = pow2 a * pow2 b"
  by (simp add: pow2_powr powr_add)

lemma pow2_mono: "a \<le> b \<Longrightarrow> pow2 a \<le> pow2 b"
  by (simp add: pow2_powr)

lemma pow2_less_D: "pow2 a < pow2 b \<Longrightarrow> a < b"
  using pow2_mono [of b a] by (cases "a < b") simp_all

lemma pow2_of_nat: "pow2 (int n) = 2 ^ n"
  by (simp add: pow2_def)

lemma pow2_Suc: "pow2 (e + 1) = 2 * pow2 e"
  using pow2_add [of e 1] by (simp add: pow2_def)

lemma rhe_of_int: "rhe (of_int k) = k"
  by (simp add: rhe_def)

lemma rhe_mono:
  assumes "y \<le> z"
  shows "rhe y \<le> rhe z"
proof -
  have fl: "\<lfloor>y\<rfloor> \<le> \<lfloor>z\<rfloor>"
    using assms by (rule floor_mono)
  have ly: "rhe y \<le> \<lfloor>y\<rfloor> + 1" and lz: "\<lfloor>z\<rfloor> \<le> rhe z"
    by (simp_all add: rhe_def Let_def)
  show ?thesis
  proof (cases "\<lfloor>y\<rfloor> = \<lfloor>z\<rfloor>")
    case True
    then have "y - of_int \<lfloor>y\<rfloor> \<le> z - of_int \<lfloor>z\<rfloor>"
      using assms by simp
    with True show ?thesis
      by (auto simp: rhe_def Let_def)
  next
    case False
    with fl have "\<lfloor>y\<rfloor> + 1 \<le> \<lfloor>z\<rfloor>" by simp
    with ly lz show ?thesis by linarith
  qed
qed

lemma rhe_minus: "rhe (- y) = - rhe y"
proof (cases "y = of_int \<lfloor>y\<rfloor>")
  case True
  then obtain k where "y = of_int k" ..
  then have "rhe y = k" "rhe (- y) = - k"
    using rhe_of_int [of k] rhe_of_int [of "- k"] by simp_all
  then show ?thesis by simp
next
  case False
  then have lt: "of_int \<lfloor>y\<rfloor> < y"
    using of_int_floor_le [of y] by linarith
  have "\<lfloor>- y\<rfloor> = - \<lfloor>y\<rfloor> - 1"
    using lt by linarith
  then show ?thesis
    using lt by (auto simp: rhe_def Let_def)
qed

lemma halvings_spec:
  assumes "1 \<le> x"
  shows "0 \<le> halvings x \<and> pow2 (halvings x) \<le> x \<and> x < pow2 (halvings x + 1)"
  using assms
proof (induction x rule: halvings.induct)
  case (1 x)
  show ?case
  proof (cases "x < 2")
    case True
    then have "halvings x = 0"
      by (simp add: halvings.simps)
    then show ?thesis
      using True 1(2) by (simp add: pow2_def)
  next
    case False
    then have h: "halvings x = 1 + halvings (x / 2)"
      by (subst halvings.simps) simp
    have "1 \<le> x / 2"
      using False by simp
    from 1(1) [OF False this]
    have IH: "0 \<le> halvings (x / 2)" "pow2 (halvings (x / 2)) \<le> x / 2"
      "x / 2 < pow2 (halvings (x / 2) + 1)"
      by simp_all
    have "pow2 (halvings x) = 2 * pow2 (halvings (x / 2))"
      using pow2_Suc [of "halvings (x / 2)"] by (simp add: h add.commute)
    moreover have "pow2 (halvings x + 1) = 2 * pow2 (halvings (x / 2) + 1)"
      using pow2_Suc [of "halvings (x / 2) + 1"] by (simp add: h add.commute add.left_commute)
    ultimately show ?thesis
      using IH h by simp
  qed
qed

lemma doublings_spec:
  assumes "0 \<le> x" "x < 2" "- 1022 \<le> e"
  shows "- 1022 \<le> doublings e x \<and> x * pow2 e < pow2 (doublings e x + 1)
    \<and> (- 1022 < doublings e x \<longrightarrow> pow2 (doublings e x) \<le> x * pow2 e)"
  using assms
proof (induction e x rule: doublings.induct)
  case (1 e x)
  show ?case
  proof (cases "1 \<le> x \<or> e \<le> - 1022")
    case True
    then have d: "doublings e x = e"
      by (simp add: doublings.simps)
    have "x * pow2 e < 2 * pow2 e"
      using 1(3) pow2_pos [of e] by simp
    moreover have "- 1022 < e \<longrightarrow> pow2 e \<le> x * pow2 e"
      using True pow2_pos [of e] by auto
    ultimately show ?thesis
      using 1(4) by (simp add: d pow2_Suc)
  next
    case False
    then have d: "doublings e x = doublings (e - 1) (x * 2)"
      by (subst doublings.simps) simp
    have "0 \<le> x * 2" "x * 2 < 2" "- 1022 \<le> e - 1"
      using False 1(2) by simp_all
    from 1(1) [OF False this]
    have IH: "- 1022 \<le> doublings (e - 1) (x * 2)"
      "x * 2 * pow2 (e - 1) < pow2 (doublings (e - 1) (x * 2) + 1)"
      "- 1022 < doublings (e - 1) (x * 2) \<longrightarrow>
         pow2 (doublings (e - 1) (x * 2)) \<le> x * 2 * pow2 (e - 1)"
      by simp_all
    have "pow2 e = 2 * pow2 (e - 1)"
      using pow2_Suc [of "e - 1"] by simp
    then have "x * 2 * pow2 (e - 1) = x * pow2 e"
      by simp
    then show ?thesis
      using IH unfolding d by (simp only:)
  qed
qed

lemma expo_spec:
  "- 1022 \<le> expo x \<and> \<bar>x\<bar> < pow2 (expo x + 1) \<and> (- 1022 < expo x \<longrightarrow> pow2 (expo x) \<le> \<bar>x\<bar>)"
proof (cases "1 \<le> \<bar>x\<bar>")
  case True
  then show ?thesis
    using halvings_spec [OF True] by (simp add: expo_def)
next
  case False
  then show ?thesis
    using doublings_spec [of "\<bar>x\<bar>" 0] by (simp add: expo_def pow2_def)
qed

lemma expo_ge: "- 1022 \<le> expo x"
  using expo_spec [of x] by simp

lemma expo_upper: "\<bar>x\<bar> < pow2 (expo x + 1)"
  using expo_spec [of x] by simp

lemma expo_lower: "- 1022 < expo x \<Longrightarrow> pow2 (expo x) \<le> \<bar>x\<bar>"
  using expo_spec [of x] by simp

lemma expo_minus: "expo (- x) = expo x"
  by (simp add: expo_def)

lemma expo_eq:
  assumes "- 1022 \<le> e" "pow2 e \<le> \<bar>x\<bar>" "\<bar>x\<bar> < pow2 (e + 1)"
  shows "expo x = e"
proof (rule antisym)
  show "expo x \<le> e"
  proof (rule ccontr)
    assume "\<not> expo x \<le> e"
    then have "e + 1 \<le> expo x" by simp
    then have "- 1022 < expo x" "pow2 (e + 1) \<le> pow2 (expo x)"
      using assms(1) by (simp_all add: pow2_mono)
    then show False
      using expo_lower [of x] assms(3) by linarith
  qed
  have "pow2 e < pow2 (expo x + 1)"
    using assms(2) expo_upper [of x] by linarith
  then show "e \<le> expo x"
    using pow2_less_D by fastforce
qed

lemma expo_mono:
  assumes "\<bar>x\<bar> \<le> \<bar>y\<bar>"
  shows "expo x \<le> expo y"
proof (rule ccontr)
  assume "\<not> expo x \<le> expo y"
  then have lt: "expo y + 1 \<le> expo x" by simp
  then have "- 1022 < expo x"
    using expo_ge [of y] by linarith
  then have "pow2 (expo x) \<le> \<bar>x\<bar>"
    by (rule expo_lower)
  moreover have "\<bar>y\<bar> < pow2 (expo y + 1)"
    by (rule expo_upper)
  moreover have "pow2 (expo y + 1) \<le> pow2 (expo x)"
    using lt by (rule pow2_mono)
  ultimately show False
    using assms by linarith
qed

lemma rnd_zero: "rnd 0 = 0"
  by (simp add: rnd_def rhe_def)

lemma rnd_minus: "rnd (- x) = - rnd x"
  by (simp add: rnd_def expo_minus rhe_minus)

lemma rnd_nonneg:
  assumes "0 \<le> x"
  shows "0 \<le> rnd x"
proof -
  have "0 \<le> x / pow2 (expo x - 52)"
    using assms pow2_pos [of "expo x - 52"] by simp
  then have "rhe 0 \<le> rhe (x / pow2 (expo x - 52))"
    by (rule rhe_mono)
  then have "0 \<le> rhe (x / pow2 (expo x - 52))"
    using rhe_of_int [of 0] by simp
  then show ?thesis
    using pow2_pos [of "expo x - 52"] by (simp add: rnd_def)
qed

lemma rnd_upper:
  assumes "0 \<le> x"
  shows "rnd x \<le> pow2 (expo x + 1)"
proof -
  define q where "q = expo x - 52"
  have p: "pow2 53 = of_int (2 ^ 53)"
    by (simp add: pow2_def)
  have split: "pow2 (expo x + 1) = pow2 53 * pow2 q"
    using pow2_add [of 53 q] by (simp add: q_def add.commute)
  have "x < pow2 (expo x + 1)"
    using expo_upper [of x] assms by simp
  then have "x < pow2 53 * pow2 q"
    by (simp only: split)
  then have "x / pow2 q \<le> pow2 53"
    using pow2_pos [of q] by (simp add: pos_divide_le_eq)
  then have "rhe (x / pow2 q) \<le> rhe (pow2 53)"
    by (rule rhe_mono)
  then have "rhe (x / pow2 q) \<le> 2 ^ 53"
    by (simp only: p rhe_of_int)
  then have "of_int (rhe (x / pow2 q)) * pow2 q \<le> of_int (2 ^ 53) * pow2 q"
    using pow2_pos [of q] by (intro mult_right_mono) simp_all
  then show ?thesis
    by (simp only: rnd_def split p flip: q_def)
qed

lemma rnd_lower:
  assumes "0 \<le> x" "- 1022 < expo x"
  shows "pow2 (expo x) \<le> rnd x"
proof -
  define q where "q = expo x - 52"
  have p: "pow2 52 = of_int (2 ^ 52)"
    by (simp add: pow2_def)
  have split: "pow2 (expo x) = pow2 52 * pow2 q"
    using pow2_add [of 52 q] by (simp add: q_def)
  have "pow2 (expo x) \<le> x"
    using expo_lower [OF assms(2)] assms(1) by simp
  then have "pow2 52 * pow2 q \<le> x"
    by (simp only: split)
  then have "pow2 52 \<le> x / pow2 q"
    using pow2_pos [of q] by (simp add: pos_le_divide_eq)
  then have "rhe (pow2 52) \<le> rhe (x / pow2 q)"
    by (rule rhe_mono)
  then have "2 ^ 52 \<le> rhe (x / pow2 q)"
    by (simp only: p rhe_of_int)
  then have "of_int (2 ^ 52) * pow2 q \<le> of_int (rhe (x / pow2 q)) * pow2 q"
    using pow2_pos [of q] by (intro mult_right_mono) simp_all
  then show ?thesis
    by (simp only: rnd_def split p flip: q_def)
qed

lemma rnd_mono_nonneg:
  assumes "0 \<le> x" "x \<le> y"
  shows "rnd x \<le> rnd y"
proof -
  have le: "expo x \<le> expo y"
    using assms by (intro expo_mono) simp
  show ?thesis
  proof (cases "expo x = expo y")
    case True
    have "x / pow2 (expo y - 52) \<le> y / pow2 (expo y - 52)"
      using assms(2) pow2_pos [of "expo y - 52"] by (simp add: divide_right_mono)
    then have "rhe (x / pow2 (expo y - 52)) \<le> rhe (y / pow2 (expo y - 52))"
      by (rule rhe_mono)
    then show ?thesis
      using pow2_pos [of "expo y - 52"] by (simp add: rnd_def True)
  next
    case False
    with le have lt: "expo x + 1 \<le> expo y" by simp
    then have "- 1022 < expo y"
      using expo_ge [of x] by linarith
    have "rnd x \<le> pow2 (expo x + 1)"
      using assms(1) by (rule rnd_upper)
    also have "\<dots> \<le> pow2 (expo y)"
      using lt by (rule pow2_mono)
    also have "\<dots> \<le> rnd y"
      using assms \<open>- 1022 < expo y\<close> by (intro rnd_lower) simp_all
    finally show ?thesis .
  qed
qed

lemma rnd_mono:
  assumes "x \<le> y"
  shows "rnd x \<le> rnd y"
proof -
  consider (pos) "0 \<le> x" | (neg) "y \<le> 0" | (mixed) "x < 0" "0 < y"
    by linarith
  then show ?thesis
  proof cases
    case pos
    then show ?thesis using assms by (rule rnd_mono_nonneg)
  next
    case neg
    then have "rnd (- y) \<le> rnd (- x)"
      using assms by (intro rnd_mono_nonneg) simp_all
    then show ?thesis by (simp add: rnd_minus)
  next
    case mixed
    have "0 \<le> rnd (- x)" "0 \<le> rnd y"
      using mixed by (simp_all add: rnd_nonneg)
    then show ?thesis by (simp add: rnd_minus)
  qed
qed

section \<open>Evaluating the rounding\<close>

lemma rnd_eval:
  assumes "- 1022 \<le> e" "pow2 e \<le> \<bar>x\<bar>" "\<bar>x\<bar> < pow2 (e + 1)"
  shows "rnd x = of_int (rhe (x / pow2 (e - 52))) * pow2 (e - 52)"
  using expo_eq [OF assms] by (simp add: rnd_def)

lemma rnd_exact:
  assumes x: "x = of_int m * pow2 q" and m: "\<bar>m\<bar> < 2 ^ 53" and q: "- 1074 \<le> q"
  shows "rnd x = x"
proof -
  define q' where "q' = expo x - 52"
  have le: "q' \<le> q"
  proof (cases "- 1022 < expo x")
    case True
    then have "pow2 (expo x) \<le> \<bar>x\<bar>"
      by (rule expo_lower)
    also have "\<bar>x\<bar> = of_int \<bar>m\<bar> * pow2 q"
      using pow2_pos [of q] by (simp add: x abs_mult)
    also have "\<dots> < of_int (2 ^ 53) * pow2 q"
      using m pow2_pos [of q] by (intro mult_strict_right_mono) simp_all
    also have "\<dots> = pow2 (53 + q)"
      by (simp add: pow2_add) (simp add: pow2_def)
    finally have "expo x < 53 + q"
      using pow2_mono [of "53 + q" "expo x"] by (cases "expo x < 53 + q") simp_all
    then show ?thesis by (simp add: q'_def)
  next
    case False
    then have "expo x = - 1022"
      using expo_ge [of x] by simp
    then show ?thesis using q by (simp add: q'_def)
  qed
  then obtain n where n: "q = q' + int n"
    by (metis le_iff_add nonneg_int_cases zle_iff_zadd)
  have "x / pow2 q' = of_int m * pow2 (int n)"
    using pow2_pos [of q'] by (simp add: x n pow2_add)
  also have "\<dots> = of_int (m * 2 ^ n)"
    by (simp add: pow2_of_nat)
  finally have "rhe (x / pow2 q') = m * 2 ^ n"
    by (simp only: rhe_of_int)
  then have "rnd x = of_int (m * 2 ^ n) * pow2 q'"
    by (simp add: rnd_def q'_def)
  also have "\<dots> = x"
    by (simp add: x n pow2_add pow2_of_nat)
  finally show ?thesis .
qed

lemma rnd_of_int:
  assumes "\<bar>m\<bar> < 2 ^ 53"
  shows "rnd (of_int m) = of_int m"
  using rnd_exact [of "of_int m" m 0] assms by (simp add: pow2_def)

lemma rnd_consts:
  "rnd 15 = 15" "rnd 20 = 20" "rnd 30 = 30" "rnd 35 = 35" "rnd 55 = 55" "rnd 85 = 85"
  "rnd 100 = 100" "rnd 1024 = 1024"
  using rnd_of_int [of 15] rnd_of_int [of 20] rnd_of_int [of 30] rnd_of_int [of 35]
    rnd_of_int [of 55] rnd_of_int [of 85] rnd_of_int [of 100] rnd_of_int [of 1024]
  by simp_all

lemma MAX_VALUE_large: "1024 \<le> MAX_VALUE"
proof -
  have "(2::real) ^ 10 \<le> 2 ^ 971"
    by (rule power_increasing) simp_all
  moreover have "(1::real) \<le> 2 ^ 53 - 1"
    by simp
  ultimately have "1 * (2::real) ^ 10 \<le> (2 ^ 53 - 1) * 2 ^ 971"
    by (intro mult_mono) simp_all
  then show ?thesis
    by (simp add: MAX_VALUE_def)
qed

section \<open>The terms in rounded arithmetic\<close>

lemma literal_0_7: "number_literal (7 / 10) = Fin double_0_7"
proof -
  have "rnd (7 / 10) = double_0_7"
    using rnd_eval [of "- 1" "7 / 10"]
    by (simp add: pow2_def rhe_def Let_def double_0_7_def)
  moreover have "\<bar>double_0_7\<bar> \<le> 1024"
    by (simp add: double_0_7_def)
  ultimately show ?thesis
    using MAX_VALUE_large by (auto simp: number_literal_def binary64_def)
qed

lemma binary64_small:
  assumes "\<bar>s\<bar> \<le> 1024"
  shows "binary64 s = Fin (rnd s)"
proof -
  have "rnd s \<le> rnd 1024" "rnd (- 1024) \<le> rnd s"
    using assms by (auto intro!: rnd_mono)
  then have "\<bar>rnd s\<bar> \<le> 1024"
    by (simp add: rnd_minus rnd_consts)
  then show ?thesis
    using MAX_VALUE_large by (auto simp: binary64_def)
qed

lemma js_sub_Fin: "js_sub (Fin a) (Fin b) = binary64 (a - b)"
  by (simp add: js_sub_def)

text \<open>The tail of each term: a cap minus a product, floored at 0.\<close>

lemma tail_zero:
  assumes "k \<le> y" "rnd k = k"
  shows "max 0 (rnd (k - rnd y)) = 0"
proof -
  have "k \<le> rnd y"
    using rnd_mono [OF assms(1)] assms(2) by simp
  then have "rnd (k - rnd y) \<le> rnd 0"
    by (intro rnd_mono) simp
  then show ?thesis
    by (simp add: rnd_zero)
qed

lemma tail_Fin:
  assumes "0 \<le> y" "0 \<le> w" "rnd k = k" "0 \<le> k" "k \<le> 1024"
  shows "js_max (Fin 0) (js_sub (Fin k) (js_mul (Fin y) (Fin w)))
           = Fin (max 0 (rnd (k - rnd (y * w))))"
proof -
  note M = MAX_VALUE_large
  define z where "z = rnd (y * w)"
  have z: "0 \<le> z"
    unfolding z_def using assms(1,2) by (intro rnd_nonneg) simp
  show ?thesis
  proof (cases "MAX_VALUE < z")
    case True
    then have "binary64 (y * w) = PInf"
      by (simp add: binary64_def z_def)
    moreover have "rnd (k - z) \<le> rnd 0"
      using True M assms(5) by (intro rnd_mono) simp
    ultimately show ?thesis
      by (simp add: js_sub_def rnd_zero flip: z_def)
  next
    case False
    then have mul: "binary64 (y * w) = Fin z"
      using z M by (auto simp: binary64_def z_def)
    have up: "rnd (k - z) \<le> k"
      using rnd_mono [of "k - z" k] z assms(3) by simp
    show ?thesis
    proof (cases "rnd (k - z) < - MAX_VALUE")
      case True
      then have "js_sub (Fin k) (Fin z) = NInf"
        using up M assms(5) by (simp add: js_sub_Fin binary64_def)
      then show ?thesis
        using True M by (simp add: mul flip: z_def)
    next
      case False
      then have "js_sub (Fin k) (Fin z) = Fin (rnd (k - z))"
        using up M assms(5) by (simp add: js_sub_Fin binary64_def)
      then show ?thesis
        by (simp add: mul flip: z_def)
    qed
  qed
qed

lemma tail_PInf:
  assumes "0 < w"
  shows "js_max (Fin 0) (js_sub (Fin k) (js_mul PInf (Fin w))) = Fin 0"
  using assms by (simp add: js_sub_def)

lemma double_0_7_bounds: "1 / 2 \<le> double_0_7" "double_0_7 \<le> 1"
  by (simp_all add: double_0_7_def)

lemma cloudTerm_Fin: "cloudTerm (Fin c) = Fin (rounded_cloudTerm c)"
proof -
  note M = MAX_VALUE_large
  define a where "a = rnd (45 - c)"
  show ?thesis
  proof (cases "\<bar>a\<bar> \<le> MAX_VALUE")
    case True
    then have "js_abs (js_sub (Fin 45) (Fin c)) = Fin \<bar>a\<bar>"
      by (auto simp: js_sub_Fin binary64_def a_def)
    then show ?thesis
      using tail_Fin [of "\<bar>a\<bar>" double_0_7 35] double_0_7_bounds
      by (simp add: cloudTerm_def literal_0_7 rounded_cloudTerm_def rnd_consts flip: a_def)
  next
    case False
    then have "js_abs (js_sub (Fin 45) (Fin c)) = PInf"
      by (auto simp: js_sub_Fin binary64_def a_def)
    moreover have "35 \<le> \<bar>a\<bar> * double_0_7"
    proof -
      have "35 \<le> 1024 * (1 / 2 :: real)" by simp
      also have "\<dots> \<le> \<bar>a\<bar> * double_0_7"
        using False M double_0_7_bounds by (intro mult_mono) simp_all
      finally show ?thesis .
    qed
    ultimately show ?thesis
      using tail_zero [of 35 "\<bar>a\<bar> * double_0_7"] tail_PInf [of double_0_7 35] double_0_7_bounds
      by (simp add: cloudTerm_def literal_0_7 rounded_cloudTerm_def rnd_consts flip: a_def)
  qed
qed

lemma excess_cases:
  fixes x k :: real
  defines "a \<equiv> rnd (x - k)"
  shows "js_max (Fin 0) (js_sub (Fin x) (Fin k))
           = (if MAX_VALUE < a then PInf else Fin (max 0 a))"
  using MAX_VALUE_large by (auto simp: js_sub_Fin binary64_def a_def)

lemma humidityTerm_Fin: "humidityTerm (Fin h) = Fin (rounded_humidityTerm h)"
proof -
  note M = MAX_VALUE_large
  define a where "a = rnd (h - 55)"
  show ?thesis
  proof (cases "MAX_VALUE < a")
    case True
    then have "20 \<le> max 0 a * (1 / 2)"
      using M by simp
    then show ?thesis
      using True tail_zero [of 20 "max 0 a * (1 / 2)"] tail_PInf [of "1 / 2" 20]
      by (simp add: humidityTerm_def excess_cases rounded_humidityTerm_def rnd_consts
          flip: a_def)
  next
    case False
    then show ?thesis
      using tail_Fin [of "max 0 a" "1 / 2" 20]
      by (simp add: humidityTerm_def excess_cases rounded_humidityTerm_def rnd_consts
          flip: a_def)
  qed
qed

lemma pmTerm_Fin: "pmTerm (Fin p) = Fin (rounded_pmTerm p)"
proof -
  note M = MAX_VALUE_large
  define a where "a = rnd (p - 12)"
  show ?thesis
  proof (cases "MAX_VALUE < a")
    case True
    then have "30 \<le> max 0 a * 2"
      using M by simp
    then show ?thesis
      using True tail_zero [of 30 "max 0 a * 2"] tail_PInf [of 2 30]
      by (simp add: pmTerm_def excess_cases rounded_pmTerm_def rnd_consts flip: a_def)
  next
    case False
    then show ?thesis
      using tail_Fin [of "max 0 a" 2 30]
      by (simp add: pmTerm_def excess_cases rounded_pmTerm_def rnd_consts flip: a_def)
  qed
qed

section \<open>The pipeline in rounded arithmetic\<close>

lemma toFiniteNumber_Fin: "toFiniteNumber v (Fin d) = Fin (spec_normalize v d)"
proof (cases v)
  case (Num n)
  then show ?thesis by (cases n) (simp_all add: spec_normalize_def)
qed (simp_all add: spec_normalize_def)

lemma toFiniteNumber_unusable:
  "\<forall>x. v \<noteq> Num (Fin x) \<Longrightarrow> toFiniteNumber v fallback = fallback"
proof (cases v)
  case (Num n)
  assume "\<forall>x. v \<noteq> Num (Fin x)"
  with Num show ?thesis by (cases n) simp_all
qed simp_all

lemma capped:
  assumes "0 \<le> z" "rnd k = k"
  shows "0 \<le> max 0 (rnd (k - z)) \<and> max 0 (rnd (k - z)) \<le> max 0 k"
proof -
  have "rnd (k - z) \<le> rnd k"
    using assms(1) by (intro rnd_mono) simp
  then show ?thesis
    using assms(2) by simp
qed

lemma rounded_cloudTerm_bounds: "0 \<le> rounded_cloudTerm c \<and> rounded_cloudTerm c \<le> 35"
proof -
  have "0 \<le> rnd (\<bar>rnd (45 - c)\<bar> * double_0_7)"
    using double_0_7_bounds by (intro rnd_nonneg) simp
  from capped [OF this, of 35] show ?thesis
    by (simp add: rounded_cloudTerm_def rnd_consts)
qed

lemma rounded_humidityTerm_bounds:
  "0 \<le> rounded_humidityTerm h \<and> rounded_humidityTerm h \<le> 20"
proof -
  have "0 \<le> rnd (max 0 (rnd (h - 55)) * (1 / 2))"
    by (intro rnd_nonneg) simp
  from capped [OF this, of 20] show ?thesis
    by (simp add: rounded_humidityTerm_def rnd_consts)
qed

lemma rounded_pmTerm_bounds: "0 \<le> rounded_pmTerm p \<and> rounded_pmTerm p \<le> 30"
proof -
  have "0 \<le> rnd (max 0 (rnd (p - 12)) * 2)"
    by (intro rnd_nonneg) simp
  from capped [OF this, of 30] show ?thesis
    by (simp add: rounded_pmTerm_def rnd_consts)
qed

lemma rnd_between:
  assumes "l \<le> x" "x \<le> u" "rnd l = l" "rnd u = u"
  shows "l \<le> rnd x \<and> rnd x \<le> u"
  using rnd_mono [OF assms(1)] rnd_mono [OF assms(2)] assms(3,4) by simp

lemma partial_sums:
  fixes c h p :: real
  defines "s1 \<equiv> rnd (rounded_cloudTerm c + rounded_humidityTerm h)"
  defines "s2 \<equiv> rnd (s1 + rounded_pmTerm p)"
  shows "0 \<le> s1 \<and> s1 \<le> 55" and "0 \<le> s2 \<and> s2 \<le> 85"
    and "15 \<le> rounded_rawScore c h p \<and> rounded_rawScore c h p \<le> 100"
proof -
  note b = rounded_cloudTerm_bounds [of c] rounded_humidityTerm_bounds [of h]
    rounded_pmTerm_bounds [of p]
  show 1: "0 \<le> s1 \<and> s1 \<le> 55"
    unfolding s1_def using b by (intro rnd_between) (simp_all add: rnd_zero rnd_consts)
  show 2: "0 \<le> s2 \<and> s2 \<le> 85"
    unfolding s2_def using 1 b by (intro rnd_between) (simp_all add: rnd_zero rnd_consts)
  have "rounded_rawScore c h p = rnd (s2 + 15)"
    by (simp add: rounded_rawScore_def s1_def s2_def)
  moreover have "15 \<le> rnd (s2 + 15) \<and> rnd (s2 + 15) \<le> 100"
    using 2 by (intro rnd_between) (simp_all add: rnd_consts)
  ultimately show "15 \<le> rounded_rawScore c h p \<and> rounded_rawScore c h p \<le> 100"
    by simp
qed

lemma js_add_small: "\<bar>a + b\<bar> \<le> 1024 \<Longrightarrow> js_add (Fin a) (Fin b) = Fin (rnd (a + b))"
  by (simp add: binary64_small)

lemma sum_of_terms:
  "js_add (js_add (js_add (cloudTerm (Fin c)) (humidityTerm (Fin h))) (pmTerm (Fin p))) baseline
     = Fin (rounded_rawScore c h p)"
proof -
  note b = rounded_cloudTerm_bounds [of c] rounded_humidityTerm_bounds [of h]
    rounded_pmTerm_bounds [of p] partial_sums(1) [of c h] partial_sums(2) [of c h p]
  have "js_add (cloudTerm (Fin c)) (humidityTerm (Fin h))
          = Fin (rnd (rounded_cloudTerm c + rounded_humidityTerm h))"
    unfolding cloudTerm_Fin humidityTerm_Fin using b by (intro js_add_small) linarith
  moreover have "js_add (Fin (rnd (rounded_cloudTerm c + rounded_humidityTerm h))) (pmTerm (Fin p))
          = Fin (rnd (rnd (rounded_cloudTerm c + rounded_humidityTerm h) + rounded_pmTerm p))"
    unfolding pmTerm_Fin using b by (intro js_add_small) linarith
  moreover have "js_add
      (Fin (rnd (rnd (rounded_cloudTerm c + rounded_humidityTerm h) + rounded_pmTerm p))) baseline
          = Fin (rnd (rnd (rnd (rounded_cloudTerm c + rounded_humidityTerm h)
                           + rounded_pmTerm p) + 15))"
    unfolding baseline_def using b by (intro js_add_small) linarith
  ultimately show ?thesis
    by (simp only: rounded_rawScore_def)
qed

lemma rawScore_eq:
  "rawScore r = Fin (rounded_rawScore (spec_normalize (cloudCover_pct r) 60)
                                      (spec_normalize (humidity_pct r) 65)
                                      (spec_normalize (pm25_ugm3 r) 12))"
  by (simp only: rawScore_def Let_def toFiniteNumber_Fin sum_of_terms)

lemma clampScore_Fin: "clampScore (Fin x) = Fin (of_int (max 0 (min 100 \<lfloor>x + 1 / 2\<rfloor>)))"
  by (simp add: clampScore_def)

lemma clampScore_in_range:
  assumes "15 \<le> x" "x \<le> 100"
  shows "\<exists>n. clampScore (Fin x) = Fin (of_int n) \<and> 15 \<le> n \<and> n \<le> 100"
proof -
  have "15 \<le> \<lfloor>x + 1 / 2\<rfloor>" using assms(1) by linarith
  moreover have "\<lfloor>x + 1 / 2\<rfloor> \<le> 100" using assms(2) by linarith
  ultimately show ?thesis
    unfolding clampScore_Fin by (intro exI [of _ "\<lfloor>x + 1 / 2\<rfloor>"]) simp
qed

lemma score_range:
  "\<exists>n. calculateSunsetScore (Some r) = Some (Fin (of_int n)) \<and> 15 \<le> n \<and> n \<le> 100"
proof -
  obtain x where x: "rawScore r = Fin x" "15 \<le> x" "x \<le> 100"
    using rawScore_eq partial_sums(3) by blast
  from clampScore_in_range [OF x(2,3)] show ?thesis
    by (simp add: calculateSunsetScore_def x(1))
qed

section \<open>The terms are monotone\<close>

lemma tail_antimono:
  assumes "y \<le> z"
  shows "max 0 (rnd (k - rnd z)) \<le> max 0 (rnd (k - rnd y))"
proof -
  have "rnd y \<le> rnd z"
    using assms by (rule rnd_mono)
  then have "rnd (k - rnd z) \<le> rnd (k - rnd y)"
    by (intro rnd_mono) simp
  then show ?thesis
    by simp
qed

lemma rounded_humidityTerm_antimono:
  assumes "h1 \<le> h2"
  shows "rounded_humidityTerm h2 \<le> rounded_humidityTerm h1"
proof -
  have "rnd (h1 - 55) \<le> rnd (h2 - 55)"
    using assms by (intro rnd_mono) simp
  then have "max 0 (rnd (h1 - 55)) * (1 / 2) \<le> max 0 (rnd (h2 - 55)) * (1 / 2)"
    by simp
  then show ?thesis
    unfolding rounded_humidityTerm_def by (rule tail_antimono)
qed

lemma rounded_pmTerm_antimono:
  assumes "p1 \<le> p2"
  shows "rounded_pmTerm p2 \<le> rounded_pmTerm p1"
proof -
  have "rnd (p1 - 12) \<le> rnd (p2 - 12)"
    using assms by (intro rnd_mono) simp
  then have "max 0 (rnd (p1 - 12)) * 2 \<le> max 0 (rnd (p2 - 12)) * 2"
    by simp
  then show ?thesis
    unfolding rounded_pmTerm_def by (rule tail_antimono)
qed

lemma rounded_cloudTerm_antimono:
  assumes "(45 \<le> a \<and> a \<le> b) \<or> (b \<le> a \<and> a \<le> 45)"
  shows "rounded_cloudTerm b \<le> rounded_cloudTerm a"
proof -
  have "\<bar>rnd (45 - a)\<bar> \<le> \<bar>rnd (45 - b)\<bar>"
  proof -
    consider (above) "45 \<le> a" "a \<le> b" | (below) "b \<le> a" "a \<le> 45"
      using assms by blast
    then show ?thesis
    proof cases
      case above
      then have "rnd (45 - b) \<le> rnd (45 - a)" "rnd (45 - a) \<le> rnd 0"
        by (auto intro!: rnd_mono)
      then show ?thesis by (simp add: rnd_zero)
    next
      case below
      then have "rnd (45 - a) \<le> rnd (45 - b)" "rnd 0 \<le> rnd (45 - a)"
        by (auto intro!: rnd_mono)
      then show ?thesis by (simp add: rnd_zero)
    qed
  qed
  then have "\<bar>rnd (45 - a)\<bar> * double_0_7 \<le> \<bar>rnd (45 - b)\<bar> * double_0_7"
    using double_0_7_bounds by (intro mult_right_mono) simp_all
  then show ?thesis
    unfolding rounded_cloudTerm_def by (rule tail_antimono)
qed

section \<open>The pipeline at concrete readings\<close>

text \<open>
  Each rounding is evaluated with its binary exponent given.
\<close>

lemma cloud_fallbacks: "rounded_cloudTerm 60 = 49 / 2"
proof -
  have s1: "rnd (45 - 60) = - 15"
    using rnd_eval [of 3 "45 - 60"]
    by (simp add: pow2_def rhe_def Let_def double_0_7_def)
  have s2: "rnd (\<bar>(- 15)\<bar> * double_0_7) = 21 / 2"
    using rnd_eval [of 3 "\<bar>(- 15)\<bar> * double_0_7"]
    by (simp add: pow2_def rhe_def Let_def double_0_7_def)
  have s3: "rnd (35 - (21 / 2)) = 49 / 2"
    using rnd_eval [of 4 "35 - (21 / 2)"]
    by (simp add: pow2_def rhe_def Let_def double_0_7_def)
  show ?thesis
    unfolding rounded_cloudTerm_def s1 s2 s3 by simp
qed

lemma humidity_fallbacks: "rounded_humidityTerm 65 = 15"
proof -
  have s1: "rnd (65 - 55) = 10"
    using rnd_eval [of 3 "65 - 55"]
    by (simp add: pow2_def rhe_def Let_def double_0_7_def)
  have s2: "rnd (max 0 10 * (1 / 2)) = 5"
    using rnd_eval [of 2 "max 0 10 * (1 / 2)"]
    by (simp add: pow2_def rhe_def Let_def double_0_7_def)
  have s3: "rnd (20 - 5) = 15"
    using rnd_eval [of 3 "20 - 5"]
    by (simp add: pow2_def rhe_def Let_def double_0_7_def)
  show ?thesis
    unfolding rounded_humidityTerm_def s1 s2 s3 by simp
qed

lemma pm_fallbacks: "rounded_pmTerm 12 = 30"
proof -
  have s1: "rnd (12 - 12) = 0"
    by (simp add: rnd_zero)
  have s2: "rnd (max 0 0 * 2) = 0"
    by (simp add: rnd_zero)
  have s3: "rnd (30 - 0) = 30"
    using rnd_eval [of 4 "30 - 0"]
    by (simp add: pow2_def rhe_def Let_def double_0_7_def)
  show ?thesis
    unfolding rounded_pmTerm_def s1 s2 s3 by simp
qed

lemma raw_fallbacks: "rounded_rawScore 60 65 12 = 169 / 2"
proof -
  have s1: "rnd ((49 / 2) + 15) = 79 / 2"
    using rnd_eval [of 5 "(49 / 2) + 15"]
    by (simp add: pow2_def rhe_def Let_def double_0_7_def)
  have s2: "rnd ((79 / 2) + 30) = 139 / 2"
    using rnd_eval [of 6 "(79 / 2) + 30"]
    by (simp add: pow2_def rhe_def Let_def double_0_7_def)
  have s3: "rnd ((139 / 2) + 15) = 169 / 2"
    using rnd_eval [of 6 "(139 / 2) + 15"]
    by (simp add: pow2_def rhe_def Let_def double_0_7_def)
  show ?thesis
    unfolding rounded_rawScore_def cloud_fallbacks humidity_fallbacks pm_fallbacks s1 s2 s3 by simp
qed

lemma cloud_ideal: "rounded_cloudTerm 45 = 35"
proof -
  have s1: "rnd (45 - 45) = 0"
    by (simp add: rnd_zero)
  have s2: "rnd (\<bar>0\<bar> * double_0_7) = 0"
    by (simp add: rnd_zero)
  have s3: "rnd (35 - 0) = 35"
    using rnd_eval [of 5 "35 - 0"]
    by (simp add: pow2_def rhe_def Let_def double_0_7_def)
  show ?thesis
    unfolding rounded_cloudTerm_def s1 s2 s3 by simp
qed

lemma humidity_ideal: "rounded_humidityTerm 50 = 20"
proof -
  have s1: "rnd (50 - 55) = - 5"
    using rnd_eval [of 2 "50 - 55"]
    by (simp add: pow2_def rhe_def Let_def double_0_7_def)
  have s2: "rnd (max 0 (- 5) * (1 / 2)) = 0"
    by (simp add: rnd_zero)
  have s3: "rnd (20 - 0) = 20"
    using rnd_eval [of 4 "20 - 0"]
    by (simp add: pow2_def rhe_def Let_def double_0_7_def)
  show ?thesis
    unfolding rounded_humidityTerm_def s1 s2 s3 by simp
qed

lemma pm_ideal: "rounded_pmTerm 10 = 30"
proof -
  have s1: "rnd (10 - 12) = - 2"
    using rnd_eval [of 1 "10 - 12"]
    by (simp add: pow2_def rhe_def Let_def double_0_7_def)
  have s2: "rnd (max 0 (- 2) * 2) = 0"
    by (simp add: rnd_zero)
  have s3: "rnd (30 - 0) = 30"
    using rnd_eval [of 4 "30 - 0"]
    by (simp add: pow2_def rhe_def Let_def double_0_7_def)
  show ?thesis
    unfolding rounded_pmTerm_def s1 s2 s3 by simp
qed

lemma raw_ideal: "rounded_rawScore 45 50 10 = 100"
proof -
  have s1: "rnd (35 + 20) = 55"
    using rnd_eval [of 5 "35 + 20"]
    by (simp add: pow2_def rhe_def Let_def double_0_7_def)
  have s2: "rnd (55 + 30) = 85"
    using rnd_eval [of 6 "55 + 30"]
    by (simp add: pow2_def rhe_def Let_def double_0_7_def)
  have s3: "rnd (85 + 15) = 100"
    using rnd_eval [of 6 "85 + 15"]
    by (simp add: pow2_def rhe_def Let_def double_0_7_def)
  show ?thesis
    unfolding rounded_rawScore_def cloud_ideal humidity_ideal pm_ideal s1 s2 s3 by simp
qed

lemma cloud_sample: "rounded_cloudTerm 42 = 4630263366890291 / 140737488355328"
proof -
  have s1: "rnd (45 - 42) = 3"
    using rnd_eval [of 1 "45 - 42"]
    by (simp add: pow2_def rhe_def Let_def double_0_7_def)
  have s2: "rnd (\<bar>3\<bar> * double_0_7) = 1182194902184755 / 562949953421312"
    using rnd_eval [of 1 "\<bar>3\<bar> * double_0_7"]
    by (simp add: pow2_def rhe_def Let_def double_0_7_def)
  have s3: "rnd (35 - (1182194902184755 / 562949953421312)) = 4630263366890291 / 140737488355328"
    using rnd_eval [of 5 "35 - (1182194902184755 / 562949953421312)"]
    by (simp add: pow2_def rhe_def Let_def double_0_7_def)
  show ?thesis
    unfolding rounded_cloudTerm_def s1 s2 s3 by simp
qed

lemma humidity_sample: "rounded_humidityTerm 68 = 27 / 2"
proof -
  have s1: "rnd (68 - 55) = 13"
    using rnd_eval [of 3 "68 - 55"]
    by (simp add: pow2_def rhe_def Let_def double_0_7_def)
  have s2: "rnd (max 0 13 * (1 / 2)) = 13 / 2"
    using rnd_eval [of 2 "max 0 13 * (1 / 2)"]
    by (simp add: pow2_def rhe_def Let_def double_0_7_def)
  have s3: "rnd (20 - (13 / 2)) = 27 / 2"
    using rnd_eval [of 3 "20 - (13 / 2)"]
    by (simp add: pow2_def rhe_def Let_def double_0_7_def)
  show ?thesis
    unfolding rounded_humidityTerm_def s1 s2 s3 by simp
qed

lemma pm_sample: "rounded_pmTerm (4165829655317709 / 562949953421312) = 30"
proof -
  have s1: "rnd ((4165829655317709 / 562949953421312) - 12) = (- (2589569785738035 / 562949953421312))"
    using rnd_eval [of 2 "(4165829655317709 / 562949953421312) - 12"]
    by (simp add: pow2_def rhe_def Let_def double_0_7_def)
  have s2: "rnd (max 0 (- (2589569785738035 / 562949953421312)) * 2) = 0"
    by (simp add: rnd_zero)
  have s3: "rnd (30 - 0) = 30"
    using rnd_eval [of 4 "30 - 0"]
    by (simp add: pow2_def rhe_def Let_def double_0_7_def)
  show ?thesis
    unfolding rounded_pmTerm_def s1 s2 s3 by simp
qed

lemma raw_sample: "rounded_rawScore 42 68 (4165829655317709 / 562949953421312) = 3215851608919245 / 35184372088832"
proof -
  have s1: "rnd ((4630263366890291 / 140737488355328) + (27 / 2)) = 6530219459687219 / 140737488355328"
    using rnd_eval [of 5 "(4630263366890291 / 140737488355328) + (27 / 2)"]
    by (simp add: pow2_def rhe_def Let_def double_0_7_def)
  have s2: "rnd ((6530219459687219 / 140737488355328) + 30) = 2688086027586765 / 35184372088832"
    using rnd_eval [of 6 "(6530219459687219 / 140737488355328) + 30"]
    by (simp add: pow2_def rhe_def Let_def double_0_7_def)
  have s3: "rnd ((2688086027586765 / 35184372088832) + 15) = 3215851608919245 / 35184372088832"
    using rnd_eval [of 6 "(2688086027586765 / 35184372088832) + 15"]
    by (simp add: pow2_def rhe_def Let_def double_0_7_def)
  show ?thesis
    unfolding rounded_rawScore_def cloud_sample humidity_sample pm_sample s1 s2 s3 by simp
qed

lemma cloud_worst: "rounded_cloudTerm 100 = 0"
proof -
  have s1: "rnd (45 - 100) = - 55"
    using rnd_eval [of 5 "45 - 100"]
    by (simp add: pow2_def rhe_def Let_def double_0_7_def)
  have s2: "rnd (\<bar>(- 55)\<bar> * double_0_7) = 77 / 2"
    using rnd_eval [of 5 "\<bar>(- 55)\<bar> * double_0_7"]
    by (simp add: pow2_def rhe_def Let_def double_0_7_def)
  have s3: "rnd (35 - (77 / 2)) = (- (7 / 2))"
    using rnd_eval [of 1 "35 - (77 / 2)"]
    by (simp add: pow2_def rhe_def Let_def double_0_7_def)
  show ?thesis
    unfolding rounded_cloudTerm_def s1 s2 s3 by simp
qed

lemma humidity_worst: "rounded_humidityTerm 100 = 0"
proof -
  have s1: "rnd (100 - 55) = 45"
    using rnd_eval [of 5 "100 - 55"]
    by (simp add: pow2_def rhe_def Let_def double_0_7_def)
  have s2: "rnd (max 0 45 * (1 / 2)) = 45 / 2"
    using rnd_eval [of 4 "max 0 45 * (1 / 2)"]
    by (simp add: pow2_def rhe_def Let_def double_0_7_def)
  have s3: "rnd (20 - (45 / 2)) = (- (5 / 2))"
    using rnd_eval [of 1 "20 - (45 / 2)"]
    by (simp add: pow2_def rhe_def Let_def double_0_7_def)
  show ?thesis
    unfolding rounded_humidityTerm_def s1 s2 s3 by simp
qed

lemma pm_worst: "rounded_pmTerm 100 = 0"
proof -
  have s1: "rnd (100 - 12) = 88"
    using rnd_eval [of 6 "100 - 12"]
    by (simp add: pow2_def rhe_def Let_def double_0_7_def)
  have s2: "rnd (max 0 88 * 2) = 176"
    using rnd_eval [of 7 "max 0 88 * 2"]
    by (simp add: pow2_def rhe_def Let_def double_0_7_def)
  have s3: "rnd (30 - 176) = - 146"
    using rnd_eval [of 7 "30 - 176"]
    by (simp add: pow2_def rhe_def Let_def double_0_7_def)
  show ?thesis
    unfolding rounded_pmTerm_def s1 s2 s3 by simp
qed

lemma raw_worst: "rounded_rawScore 100 100 100 = 15"
proof -
  have s1: "rnd (0 + 0) = 0"
    by (simp add: rnd_zero)
  have s2: "rnd (0 + 0) = 0"
    by (simp add: rnd_zero)
  have s3: "rnd (0 + 15) = 15"
    using rnd_eval [of 3 "0 + 15"]
    by (simp add: pow2_def rhe_def Let_def double_0_7_def)
  show ?thesis
    unfolding rounded_rawScore_def cloud_worst humidity_worst pm_worst s1 s2 s3 by simp
qed

lemma cloud_tie: "rounded_cloudTerm (61 / 2) = 3497326585629901 / 140737488355328"
proof -
  have s1: "rnd (45 - (61 / 2)) = 29 / 2"
    using rnd_eval [of 3 "45 - (61 / 2)"]
    by (simp add: pow2_def rhe_def Let_def double_0_7_def)
  have s2: "rnd (\<bar>(29 / 2)\<bar> * double_0_7) = 1428485506806579 / 140737488355328"
    using rnd_eval [of 3 "\<bar>(29 / 2)\<bar> * double_0_7"]
    by (simp add: pow2_def rhe_def Let_def double_0_7_def)
  have s3: "rnd (35 - (1428485506806579 / 140737488355328)) = 3497326585629901 / 140737488355328"
    using rnd_eval [of 4 "35 - (1428485506806579 / 140737488355328)"]
    by (simp add: pow2_def rhe_def Let_def double_0_7_def)
  show ?thesis
    unfolding rounded_cloudTerm_def s1 s2 s3 by simp
qed

lemma humidity_tie: "rounded_humidityTerm (3919539050695885 / 70368744177664) = 2765491646182195 / 140737488355328"
proof -
  have s1: "rnd ((3919539050695885 / 70368744177664) - 55) = 49258120924365 / 70368744177664"
    using rnd_eval [of "- 1" "(3919539050695885 / 70368744177664) - 55"]
    by (simp add: pow2_def rhe_def Let_def double_0_7_def)
  have s2: "rnd (max 0 (49258120924365 / 70368744177664) * (1 / 2)) = 49258120924365 / 140737488355328"
    using rnd_eval [of "- 2" "max 0 (49258120924365 / 70368744177664) * (1 / 2)"]
    by (simp add: pow2_def rhe_def Let_def double_0_7_def)
  have s3: "rnd (20 - (49258120924365 / 140737488355328)) = 2765491646182195 / 140737488355328"
    using rnd_eval [of 4 "20 - (49258120924365 / 140737488355328)"]
    by (simp add: pow2_def rhe_def Let_def double_0_7_def)
  show ?thesis
    unfolding rounded_humidityTerm_def s1 s2 s3 by simp
qed

lemma pm_tie: "rounded_pmTerm 10 = 30"
proof -
  have s1: "rnd (10 - 12) = - 2"
    using rnd_eval [of 1 "10 - 12"]
    by (simp add: pow2_def rhe_def Let_def double_0_7_def)
  have s2: "rnd (max 0 (- 2) * 2) = 0"
    by (simp add: rnd_zero)
  have s3: "rnd (30 - 0) = 30"
    using rnd_eval [of 4 "30 - 0"]
    by (simp add: pow2_def rhe_def Let_def double_0_7_def)
  show ?thesis
    unfolding rounded_pmTerm_def s1 s2 s3 by simp
qed

lemma raw_tie: "rounded_rawScore (61 / 2) (3919539050695885 / 70368744177664) 10 = 179 / 2"
proof -
  have s1: "rnd ((3497326585629901 / 140737488355328) + (2765491646182195 / 140737488355328)) = 89 / 2"
    using rnd_eval [of 5 "(3497326585629901 / 140737488355328) + (2765491646182195 / 140737488355328)"]
    by (simp add: pow2_def rhe_def Let_def double_0_7_def)
  have s2: "rnd ((89 / 2) + 30) = 149 / 2"
    using rnd_eval [of 6 "(89 / 2) + 30"]
    by (simp add: pow2_def rhe_def Let_def double_0_7_def)
  have s3: "rnd ((149 / 2) + 15) = 179 / 2"
    using rnd_eval [of 6 "(149 / 2) + 15"]
    by (simp add: pow2_def rhe_def Let_def double_0_7_def)
  show ?thesis
    unfolding rounded_rawScore_def cloud_tie humidity_tie pm_tie s1 s2 s3 by simp
qed

lemma cloud_96: "rounded_cloudTerm 96 = 0"
proof -
  have s1: "rnd (45 - 96) = - 51"
    using rnd_eval [of 5 "45 - 96"]
    by (simp add: pow2_def rhe_def Let_def double_0_7_def)
  have s2: "rnd (\<bar>(- 51)\<bar> * double_0_7) = 5024328334285209 / 140737488355328"
    using rnd_eval [of 5 "\<bar>(- 51)\<bar> * double_0_7"]
    by (simp add: pow2_def rhe_def Let_def double_0_7_def)
  have s3: "rnd (35 - (5024328334285209 / 140737488355328)) = (- (98516241848729 / 140737488355328))"
    using rnd_eval [of "- 1" "35 - (5024328334285209 / 140737488355328)"]
    by (simp add: pow2_def rhe_def Let_def double_0_7_def)
  show ?thesis
    unfolding rounded_cloudTerm_def s1 s2 s3 by simp
qed

lemma cloud_46: "rounded_cloudTerm 46 = 2413647925293875 / 70368744177664"
proof -
  have s1: "rnd (45 - 46) = - 1"
    using rnd_eval [of 0 "45 - 46"]
    by (simp add: pow2_def rhe_def Let_def double_0_7_def)
  have s2: "rnd (\<bar>(- 1)\<bar> * double_0_7) = 3152519739159347 / 4503599627370496"
    using rnd_eval [of "- 1" "\<bar>(- 1)\<bar> * double_0_7"]
    by (simp add: pow2_def rhe_def Let_def double_0_7_def)
  have s3: "rnd (35 - (3152519739159347 / 4503599627370496)) = 2413647925293875 / 70368744177664"
    using rnd_eval [of 5 "35 - (3152519739159347 / 4503599627370496)"]
    by (simp add: pow2_def rhe_def Let_def double_0_7_def)
  show ?thesis
    unfolding rounded_cloudTerm_def s1 s2 s3 by simp
qed

lemma cloud_46_next: "rounded_cloudTerm (6473924464345089 / 140737488355328) = 2413647925293875 / 70368744177664"
proof -
  have s1: "rnd (45 - (6473924464345089 / 140737488355328)) = (- (140737488355329 / 140737488355328))"
    using rnd_eval [of 0 "45 - (6473924464345089 / 140737488355328)"]
    by (simp add: pow2_def rhe_def Let_def double_0_7_def)
  have s2: "rnd (\<bar>(- (140737488355329 / 140737488355328))\<bar> * double_0_7) = 6305039478318739 / 9007199254740992"
    using rnd_eval [of "- 1" "\<bar>(- (140737488355329 / 140737488355328))\<bar> * double_0_7"]
    by (simp add: pow2_def rhe_def Let_def double_0_7_def)
  have s3: "rnd (35 - (6305039478318739 / 9007199254740992)) = 2413647925293875 / 70368744177664"
    using rnd_eval [of 5 "35 - (6305039478318739 / 9007199254740992)"]
    by (simp add: pow2_def rhe_def Let_def double_0_7_def)
  show ?thesis
    unfolding rounded_cloudTerm_def s1 s2 s3 by simp
qed

lemma rnd_7_4: "rnd (37 / 5) = 4165829655317709 / 562949953421312"
  using rnd_eval [of 2 "(37 / 5)"]
  by (simp add: pow2_def rhe_def Let_def)

lemma rnd_55_7: "rnd (557 / 10) = 3919539050695885 / 70368744177664"
  using rnd_eval [of 5 "(557 / 10)"]
  by (simp add: pow2_def rhe_def Let_def)

lemma rnd_91_4: "rnd (457 / 5) = 3215851608919245 / 35184372088832"
  using rnd_eval [of 6 "(457 / 5)"]
  by (simp add: pow2_def rhe_def Let_def)

lemma literals:
  "number_literal (74 / 10) = Fin (4165829655317709 / 562949953421312)"
  "number_literal (557 / 10) = Fin (3919539050695885 / 70368744177664)"
  "number_literal (914 / 10) = Fin (3215851608919245 / 35184372088832)"
  by (simp_all add: number_literal_def binary64_small rnd_7_4 rnd_55_7 rnd_91_4)

section \<open>The rounding error of the raw score\<close>

lemma eps46_pos: "0 < eps46"
  by (simp add: eps46_def)

lemma rhe_error: "\<bar>of_int (rhe y) - y\<bar> \<le> 1 / 2"
proof -
  have "of_int \<lfloor>y\<rfloor> \<le> y" "y < of_int \<lfloor>y\<rfloor> + 1"
    by linarith+
  then show ?thesis
    by (auto simp: rhe_def Let_def)
qed

lemma rnd_error: "\<bar>rnd x - x\<bar> \<le> pow2 (expo x - 52) / 2"
proof -
  define q where "q = expo x - 52"
  have pos: "0 < pow2 q"
    by (rule pow2_pos)
  have "rnd x - x = (of_int (rhe (x / pow2 q)) - x / pow2 q) * pow2 q"
    using pos by (simp add: rnd_def q_def algebra_simps)
  then have "\<bar>rnd x - x\<bar> = \<bar>of_int (rhe (x / pow2 q)) - x / pow2 q\<bar> * pow2 q"
    using pos by (simp add: abs_mult)
  also have "\<dots> \<le> 1 / 2 * pow2 q"
    using pos rhe_error [of "x / pow2 q"] by (intro mult_right_mono) simp_all
  finally show ?thesis
    by (simp add: q_def)
qed

lemma rnd_error_small:
  assumes "\<bar>x\<bar> < 256"
  shows "\<bar>rnd x - x\<bar> \<le> eps46"
proof -
  have "expo x \<le> 7"
  proof (rule ccontr)
    assume "\<not> expo x \<le> 7"
    then have 8: "8 \<le> expo x" by simp
    then have "pow2 8 \<le> pow2 (expo x)"
      by (rule pow2_mono)
    also have "\<dots> \<le> \<bar>x\<bar>"
      using 8 by (intro expo_lower) simp
    finally show False
      using assms by (simp add: pow2_def)
  qed
  then have "pow2 (expo x - 52) \<le> pow2 (- 45)"
    by (intro pow2_mono) simp
  then have "pow2 (expo x - 52) / 2 \<le> eps46"
    by (simp add: pow2_def eps46_def)
  with rnd_error [of x] show ?thesis
    by linarith
qed

lemma rnd_step:
  assumes "\<bar>x - x'\<bar> \<le> d" "\<bar>x\<bar> < 256"
  shows "\<bar>rnd x - x'\<bar> \<le> d + eps46"
  using rnd_error_small [OF assms(2)] assms(1) by linarith

lemma max0_lipschitz: "\<bar>max 0 a - max 0 b\<bar> \<le> \<bar>a - b\<bar>" for a b :: real
  by (auto simp: max_def)

lemma rnd_abs_le:
  assumes "\<bar>x\<bar> \<le> u" "rnd u = u"
  shows "\<bar>rnd x\<bar> \<le> u"
proof -
  have "rnd x \<le> rnd u" "rnd (- u) \<le> rnd x"
    using assms(1) by (auto intro!: rnd_mono)
  then show ?thesis
    by (simp add: rnd_minus assms(2))
qed

lemma rnd_abs_ge:
  assumes "u \<le> \<bar>x\<bar>" "rnd u = u"
  shows "u \<le> \<bar>rnd x\<bar>"
proof (cases "0 \<le> x")
  case True
  then have "rnd u \<le> rnd x"
    using assms(1) by (intro rnd_mono) simp
  then show ?thesis
    using assms(2) by simp
next
  case False
  then have "rnd x \<le> rnd (- u)"
    using assms(1) by (intro rnd_mono) simp
  then show ?thesis
    using assms(2) by (simp add: rnd_minus)
qed

lemma double_0_7_error: "\<bar>double_0_7 - 7 / 10\<bar> \<le> 1 / 2 ^ 54"
  by (simp add: double_0_7_def)

lemma cloudTerm_error: "\<bar>rounded_cloudTerm c - spec_cloudTerm c\<bar> \<le> 4 * eps46"
proof (cases "\<bar>45 - c\<bar> \<le> 100")
  case True
  define x where "x = 45 - c"
  define a where "a = rnd x"
  define b where "b = rnd (\<bar>a\<bar> * double_0_7)"
  have x: "\<bar>x\<bar> \<le> 100"
    using True by (simp add: x_def)
  have a: "\<bar>a - x\<bar> \<le> eps46"
    unfolding a_def using x by (intro rnd_error_small) simp
  have a100: "\<bar>a\<bar> \<le> 100"
    unfolding a_def using x by (intro rnd_abs_le) (simp_all add: rnd_consts)
  have "\<bar>\<bar>a\<bar> * double_0_7 - \<bar>x\<bar> * (7 / 10)\<bar>
      = \<bar>(\<bar>a\<bar> - \<bar>x\<bar>) * double_0_7 + \<bar>x\<bar> * (double_0_7 - 7 / 10)\<bar>"
    by (simp add: algebra_simps)
  also have "\<dots> \<le> \<bar>(\<bar>a\<bar> - \<bar>x\<bar>) * double_0_7\<bar> + \<bar>\<bar>x\<bar> * (double_0_7 - 7 / 10)\<bar>"
    by (rule abs_triangle_ineq)
  also have "\<dots> \<le> eps46 * 1 + 100 * (1 / 2 ^ 54)"
  proof (intro add_mono)
    have "\<bar>\<bar>a\<bar> - \<bar>x\<bar>\<bar> \<le> eps46"
      using a by linarith
    then show "\<bar>(\<bar>a\<bar> - \<bar>x\<bar>) * double_0_7\<bar> \<le> eps46 * 1"
      unfolding abs_mult using double_0_7_bounds by (intro mult_mono) simp_all
    show "\<bar>\<bar>x\<bar> * (double_0_7 - 7 / 10)\<bar> \<le> 100 * (1 / 2 ^ 54)"
      unfolding abs_mult using x double_0_7_error by (intro mult_mono) simp_all
  qed
  also have "\<dots> \<le> 2 * eps46"
    by (simp add: eps46_def)
  finally have u: "\<bar>\<bar>a\<bar> * double_0_7 - \<bar>x\<bar> * (7 / 10)\<bar> \<le> 2 * eps46" .
  have u100: "0 \<le> \<bar>a\<bar> * double_0_7" "\<bar>a\<bar> * double_0_7 \<le> 100"
  proof -
    show "0 \<le> \<bar>a\<bar> * double_0_7"
      using double_0_7_bounds by simp
    have "\<bar>a\<bar> * double_0_7 \<le> 100 * 1"
      using a100 double_0_7_bounds by (intro mult_mono) simp_all
    then show "\<bar>a\<bar> * double_0_7 \<le> 100" by simp
  qed
  have b: "\<bar>b - \<bar>x\<bar> * (7 / 10)\<bar> \<le> 2 * eps46 + eps46"
    unfolding b_def using u u100 by (intro rnd_step) simp_all
  have b100: "0 \<le> b \<and> b \<le> 100"
    unfolding b_def using u100 by (intro rnd_between) (simp_all add: rnd_zero rnd_consts)
  have "\<bar>rnd (35 - b) - (35 - \<bar>x\<bar> * (7 / 10))\<bar> \<le> (2 * eps46 + eps46) + eps46"
  proof (rule rnd_step)
    show "\<bar>35 - b - (35 - \<bar>x\<bar> * (7 / 10))\<bar> \<le> 2 * eps46 + eps46"
      using b by linarith
    show "\<bar>35 - b\<bar> < 256"
      using b100 by linarith
  qed
  moreover have "\<bar>max 0 (rnd (35 - b)) - max 0 (35 - \<bar>x\<bar> * (7 / 10))\<bar>
      \<le> \<bar>rnd (35 - b) - (35 - \<bar>x\<bar> * (7 / 10))\<bar>"
    by (rule max0_lipschitz)
  ultimately have "\<bar>max 0 (rnd (35 - b)) - max 0 (35 - \<bar>x\<bar> * (7 / 10))\<bar> \<le> 4 * eps46"
    by linarith
  then show ?thesis
    by (simp add: rounded_cloudTerm_def spec_cloudTerm_def x_def a_def b_def)
next
  case False
  then have far: "100 \<le> \<bar>45 - c\<bar>" by simp
  then have "spec_cloudTerm c = 0"
    by (simp add: spec_cloudTerm_def)
  moreover have "rounded_cloudTerm c = 0"
  proof -
    have "100 \<le> \<bar>rnd (45 - c)\<bar>"
      using far by (intro rnd_abs_ge) (simp_all add: rnd_consts)
    then have "100 * (1 / 2) \<le> \<bar>rnd (45 - c)\<bar> * double_0_7"
      using double_0_7_bounds by (intro mult_mono) simp_all
    then have "35 \<le> \<bar>rnd (45 - c)\<bar> * double_0_7"
      by simp
    then show ?thesis
      unfolding rounded_cloudTerm_def by (intro tail_zero) (simp_all add: rnd_consts)
  qed
  ultimately show ?thesis using eps46_pos by simp
qed

text \<open>The humidity and particulate terms share their shape: a cap minus a multiple of an excess.\<close>

lemma excess_term_error:
  fixes w k :: real
  assumes w: "0 < w" "w \<le> 2" and k: "0 \<le> k" "k \<le> 50" "rnd k = k" and kw: "k \<le> 100 * w"
  shows "\<bar>max 0 (rnd (k - rnd (max 0 (rnd x) * w))) - max 0 (k - max 0 x * w)\<bar> \<le> 4 * eps46"
proof -
  consider (mid) "\<bar>x\<bar> \<le> 100" | (high) "100 < x" | (low) "x < - 100"
    by linarith
  then show ?thesis
  proof cases
    case mid
    define a where "a = rnd x"
    define b where "b = rnd (max 0 a * w)"
    have a: "\<bar>a - x\<bar> \<le> eps46"
      unfolding a_def using mid by (intro rnd_error_small) simp
    have a100: "\<bar>a\<bar> \<le> 100"
      unfolding a_def using mid by (intro rnd_abs_le) (simp_all add: rnd_consts)
    have m: "\<bar>max 0 a - max 0 x\<bar> \<le> eps46"
      using max0_lipschitz [of a x] a by linarith
    have "\<bar>max 0 a * w - max 0 x * w\<bar> = \<bar>max 0 a - max 0 x\<bar> * w"
      using w by (simp add: abs_mult flip: left_diff_distrib)
    also have "\<dots> \<le> eps46 * 2"
      using m w by (intro mult_mono) simp_all
    finally have u: "\<bar>max 0 a * w - max 0 x * w\<bar> \<le> 2 * eps46"
      by simp
    have u200: "0 \<le> max 0 a * w" "max 0 a * w \<le> 200"
    proof -
      show "0 \<le> max 0 a * w" using w by simp
      have "max 0 a * w \<le> 100 * 2"
        using a100 w by (intro mult_mono) auto
      then show "max 0 a * w \<le> 200" by simp
    qed
    have b: "\<bar>b - max 0 x * w\<bar> \<le> 2 * eps46 + eps46"
      unfolding b_def using u u200 by (intro rnd_step) simp_all
    have "rnd 200 = 200"
      using rnd_of_int [of 200] by simp
    then have b200: "0 \<le> b \<and> b \<le> 200"
      unfolding b_def using u200 by (intro rnd_between) (simp_all add: rnd_zero)
    have "\<bar>rnd (k - b) - (k - max 0 x * w)\<bar> \<le> (2 * eps46 + eps46) + eps46"
    proof (rule rnd_step)
      show "\<bar>k - b - (k - max 0 x * w)\<bar> \<le> 2 * eps46 + eps46"
        using b by linarith
      show "\<bar>k - b\<bar> < 256"
        using b200 k by linarith
    qed
    moreover have "\<bar>max 0 (rnd (k - b)) - max 0 (k - max 0 x * w)\<bar>
        \<le> \<bar>rnd (k - b) - (k - max 0 x * w)\<bar>"
      by (rule max0_lipschitz)
    ultimately show ?thesis
      unfolding a_def b_def by linarith
  next
    case high
    then have "100 \<le> rnd x"
      using rnd_mono [of 100 x] by (simp add: rnd_consts)
    then have "100 * w \<le> max 0 (rnd x) * w"
      using w by (intro mult_right_mono) simp_all
    then have "k \<le> max 0 (rnd x) * w"
      using kw by linarith
    then have "max 0 (rnd (k - rnd (max 0 (rnd x) * w))) = 0"
      using k by (intro tail_zero)
    moreover have "100 * w \<le> max 0 x * w"
      using high w by (intro mult_right_mono) simp_all
    then have "max 0 (k - max 0 x * w) = 0"
      using kw by simp
    ultimately show ?thesis using eps46_pos by simp
  next
    case low
    then have "rnd x \<le> 0"
      using rnd_mono [of x 0] by (simp add: rnd_zero)
    then have "max 0 (rnd x) = 0" "max 0 x = 0"
      using low by simp_all
    then show ?thesis
      using k eps46_pos by (simp add: rnd_zero)
  qed
qed

lemma humidityTerm_error: "\<bar>rounded_humidityTerm h - spec_humidityTerm h\<bar> \<le> 4 * eps46"
  using excess_term_error [of "1 / 2" 20 "h - 55"]
  by (simp add: rounded_humidityTerm_def spec_humidityTerm_def rnd_consts)

lemma pmTerm_error: "\<bar>rounded_pmTerm p - spec_pmTerm p\<bar> \<le> 4 * eps46"
  using excess_term_error [of 2 30 "p - 12"]
  by (simp add: rounded_pmTerm_def spec_pmTerm_def rnd_consts)

lemma rawScore_error: "\<bar>rounded_rawScore c h p - spec_rawScore c h p\<bar> \<le> 1 / 2 ^ 42"
proof -
  note e = cloudTerm_error [of c] humidityTerm_error [of h] pmTerm_error [of p]
  note b = rounded_cloudTerm_bounds [of c] rounded_humidityTerm_bounds [of h]
    rounded_pmTerm_bounds [of p] partial_sums(1) [of c h] partial_sums(2) [of c h p]
  define s1 where "s1 = rnd (rounded_cloudTerm c + rounded_humidityTerm h)"
  define s2 where "s2 = rnd (s1 + rounded_pmTerm p)"
  have 1: "\<bar>s1 - (spec_cloudTerm c + spec_humidityTerm h)\<bar> \<le> 8 * eps46 + eps46"
    unfolding s1_def
  proof (rule rnd_step)
    show "\<bar>rounded_cloudTerm c + rounded_humidityTerm h
        - (spec_cloudTerm c + spec_humidityTerm h)\<bar> \<le> 8 * eps46"
      using e by linarith
    show "\<bar>rounded_cloudTerm c + rounded_humidityTerm h\<bar> < 256"
      using b by linarith
  qed
  have 2: "\<bar>s2 - (spec_cloudTerm c + spec_humidityTerm h + spec_pmTerm p)\<bar>
      \<le> 13 * eps46 + eps46"
    unfolding s2_def
  proof (rule rnd_step)
    show "\<bar>s1 + rounded_pmTerm p
        - (spec_cloudTerm c + spec_humidityTerm h + spec_pmTerm p)\<bar> \<le> 13 * eps46"
      using 1 e by linarith
    show "\<bar>s1 + rounded_pmTerm p\<bar> < 256"
      using b unfolding s1_def by linarith
  qed
  have "\<bar>rnd (s2 + 15) - (spec_cloudTerm c + spec_humidityTerm h + spec_pmTerm p + 15)\<bar>
      \<le> 14 * eps46 + eps46"
  proof (rule rnd_step)
    show "\<bar>s2 + 15 - (spec_cloudTerm c + spec_humidityTerm h + spec_pmTerm p + 15)\<bar>
        \<le> 14 * eps46"
      using 2 by linarith
    show "\<bar>s2 + 15\<bar> < 256"
      using b unfolding s1_def s2_def by linarith
  qed
  moreover have "15 * eps46 \<le> 1 / 2 ^ 42"
    by (simp add: eps46_def)
  ultimately have "\<bar>rnd (s2 + 15)
      - (spec_cloudTerm c + spec_humidityTerm h + spec_pmTerm p + 15)\<bar> \<le> 1 / 2 ^ 42"
    by linarith
  then show ?thesis
    by (simp add: rounded_rawScore_def spec_rawScore_def s1_def s2_def)
qed

lemma rounded_cloudTerm_strict:
  assumes side: "(45 \<le> a \<and> a < b) \<or> (b < a \<and> a \<le> 45)"
    and apart: "1 / 2 ^ 42 \<le> \<bar>b - a\<bar>" and inside: "\<bar>45 - a\<bar> \<le> 50 - 1 / 2 ^ 42"
  shows "rounded_cloudTerm b < rounded_cloudTerm a"
proof -
  define g :: real where "g = 1 / 2 ^ 42"
  have g: "8 * eps46 < g * (7 / 10)"
    by (simp add: g_def eps46_def)
  have apart': "g \<le> \<bar>b - a\<bar>"
    using apart by (simp add: g_def)
  have far: "\<bar>45 - a\<bar> + g \<le> \<bar>45 - b\<bar>"
    using side apart' by argo
  have sa: "spec_cloudTerm a = 35 - \<bar>45 - a\<bar> * (7 / 10)"
    using inside by (simp add: spec_cloudTerm_def)
  have inside': "\<bar>45 - a\<bar> \<le> 50 - g"
    using inside by (simp add: g_def)
  have "35 - \<bar>45 - a\<bar> * (7 / 10) \<ge> g * (7 / 10)"
    using inside' by argo
  moreover have "35 - \<bar>45 - b\<bar> * (7 / 10) \<le> 35 - \<bar>45 - a\<bar> * (7 / 10) - g * (7 / 10)"
    using far by argo
  ultimately have "spec_cloudTerm b \<le> spec_cloudTerm a - g * (7 / 10)"
    unfolding sa by (simp add: spec_cloudTerm_def)
  then show ?thesis
    using cloudTerm_error [of a] cloudTerm_error [of b] g by argo
qed

section \<open>Overflow and rounding inside the terms\<close>

text \<open>
  The largest double and the powers of two around it.
\<close>

lemma largest_double_facts:
  "rnd MAX_VALUE = MAX_VALUE" "rnd (pow2 1023) = pow2 1023" "rnd (pow2 1024) = pow2 1024"
  "pow2 1023 + 12 \<le> MAX_VALUE" "MAX_VALUE < pow2 1024"
proof -
  show "rnd MAX_VALUE = MAX_VALUE"
    using rnd_exact [of MAX_VALUE "2 ^ 53 - 1" 971] by (simp add: MAX_VALUE_def pow2_def)
  show "rnd (pow2 1023) = pow2 1023"
    using rnd_exact [of "pow2 1023" 1 1023] by simp
  show "rnd (pow2 1024) = pow2 1024"
    using rnd_exact [of "pow2 1024" 1 1024] by simp
  show "pow2 1023 + 12 \<le> MAX_VALUE"
    by (simp add: MAX_VALUE_def pow2_def)
  show "MAX_VALUE < pow2 1024"
    by (simp add: MAX_VALUE_def pow2_def)
qed

text \<open>
  For a particulate reading at the largest double the doubled excess is infinite; the
  outer \<open>Math.max(0, _)\<close> brings the term back to 0.
\<close>

lemma pm_product_overflows:
  "js_mul (js_max (Fin 0) (js_sub (Fin MAX_VALUE) (Fin 12))) (Fin 2) = PInf
   \<and> pmTerm (Fin MAX_VALUE) = Fin 0"
proof -
  define a where "a = rnd (MAX_VALUE - 12)"
  have a: "pow2 1023 \<le> a \<and> a \<le> MAX_VALUE"
    unfolding a_def using largest_double_facts by (intro rnd_between) simp_all
  have p: "0 < pow2 1023"
    by (rule pow2_pos)
  have sub: "js_sub (Fin MAX_VALUE) (Fin 12) = Fin a"
    using a p by (auto simp: js_sub_Fin binary64_def a_def)
  have "pow2 1024 = pow2 1023 * 2"
    using pow2_add [of 1023 1] by (simp add: pow2_def)
  then have "pow2 1024 \<le> a * 2"
    using a by simp
  then have "rnd (pow2 1024) \<le> rnd (a * 2)"
    by (rule rnd_mono)
  then have "MAX_VALUE < rnd (a * 2)"
    using largest_double_facts by simp
  then have mul: "js_mul (js_max (Fin 0) (js_sub (Fin MAX_VALUE) (Fin 12))) (Fin 2) = PInf"
    using a p by (simp add: sub binary64_def max_def)
  then show ?thesis
    by (simp add: pmTerm_def js_sub_def)
qed

text \<open>
  Cloud covers 46 and the next double above 46 have the same term: the products round to
  the same double.
\<close>

lemma cloudTerm_adjacent_doubles:
  "(46::real) < 6473924464345089 / 140737488355328
   \<and> cloudTerm (Fin 46) = cloudTerm (Fin (6473924464345089 / 140737488355328))"
  by (simp add: cloudTerm_Fin cloud_46 cloud_46_next)

section \<open>Properties of the scoring functions\<close>

text \<open>
  C1. As stated the claim fails: the formula in exact real arithmetic is not what the code
  passes to \<open>clampScore\<close>. At cloud cover 30.5, humidity 55.7 (the double nearest to it)
  and PM2.5 10 the code passes 89.5 and the score is 90, while the exact value of the
  formula is below 89.5.
\<close>

theorem C1_exact_formula_counterexample:
  "rawScore \<lparr>cloudCover_pct = Num (Fin (61 / 2)),
             humidity_pct = Num (Fin (3919539050695885 / 70368744177664)),
             pm25_ugm3 = Num (Fin 10)\<rparr> = Fin (179 / 2)
   \<and> max 0 (35 - \<bar>45 - 61 / 2\<bar> * 0.7)
       + max 0 (20 - max 0 (3919539050695885 / 70368744177664 - 55) * 0.5)
       + max 0 (30 - max 0 (10 - 12) * 2) + 15 < (179 / 2 :: real)
   \<and> number_literal (557 / 10) = Fin (3919539050695885 / 70368744177664)
   \<and> calculateSunsetScore
        (Some \<lparr>cloudCover_pct = Num (Fin (61 / 2)),
               humidity_pct = Num (Fin (3919539050695885 / 70368744177664)),
               pm25_ugm3 = Num (Fin 10)\<rparr>) = Some (Fin 90)"
  by (simp add: calculateSunsetScore_def clampScore_Fin rawScore_eq spec_normalize_def raw_tie
      literals)

text \<open>
  C1, amended. For finite inputs \<open>c\<close>, \<open>h\<close>, \<open>p\<close> the value passed to \<open>clampScore\<close> is
  \<open>cloudTerm + humidityTerm + pmTerm + 15\<close> with the three terms of the formula, every
  subtraction, multiplication and addition rounded to the nearest double and 0.7 read as
  the double nearest to it (\<open>rounded_rawScore\<close>), also where an intermediate operation
  overflows. It differs from the value of the formula in exact arithmetic by at most
  \<open>2\<close> to the power \<open>-42\<close>.
\<close>

theorem C1_rawScore_rounded_formula:
  "rawScore \<lparr>cloudCover_pct = Num (Fin c), humidity_pct = Num (Fin h), pm25_ugm3 = Num (Fin p)\<rparr>
     = Fin (rounded_rawScore c h p)
   \<and> \<bar>rounded_rawScore c h p
        - (max 0 (35 - \<bar>45 - c\<bar> * 0.7) + max 0 (20 - max 0 (h - 55) * 0.5)
           + max 0 (30 - max 0 (p - 12) * 2) + 15)\<bar> \<le> 1 / 2 ^ 42"
  using rawScore_error [of c h p]
  by (simp add: rawScore_eq spec_normalize_def spec_rawScore_def spec_cloudTerm_def
      spec_humidityTerm_def spec_pmTerm_def)

text \<open>
  C2. Whatever the three fields of a present reading are (absent, null, a finite number,
  NaN or an infinity), \<open>calculateSunsetScore\<close> returns an integer between 0 and 100.
\<close>

theorem C2_score_integer_0_100:
  "\<exists>n. calculateSunsetScore
          (Some \<lparr>cloudCover_pct = c, humidity_pct = h, pm25_ugm3 = p\<rparr>) = Some (Fin (of_int n))
       \<and> 0 \<le> n \<and> n \<le> 100"
proof -
  obtain n where "calculateSunsetScore
      (Some \<lparr>cloudCover_pct = c, humidity_pct = h, pm25_ugm3 = p\<rparr>) = Some (Fin (of_int n))"
    and "15 \<le> n" and "n \<le> 100"
    using score_range by blast
  then show ?thesis by (intro exI [of _ n]) simp
qed

text \<open>
  C3. A field value \<open>v\<close> that is absent, null or not a finite number (none of the
  values \<open>Num (Fin x)\<close>) is replaced by the fallback; a finite number \<open>y\<close> is returned
  as it is, whatever its size or sign. With the fallbacks of \<open>calculateSunsetScore\<close>
  (cloud cover 60, humidity 65, PM2.5 12), a reading with such a \<open>v\<close> in one field has
  the same raw score and the same score as the reading with the fallback constant in that
  field, whatever the other two fields are.
\<close>

theorem C3_normalizer_fallback:
  assumes "\<forall>x. v \<noteq> Num (Fin x)"
  shows "toFiniteNumber v fallback = fallback
    \<and> toFiniteNumber (Num (Fin y)) fallback = Fin y
    \<and> rawScore (r\<lparr>cloudCover_pct := v\<rparr>) = rawScore (r\<lparr>cloudCover_pct := Num (Fin 60)\<rparr>)
    \<and> rawScore (r\<lparr>humidity_pct := v\<rparr>) = rawScore (r\<lparr>humidity_pct := Num (Fin 65)\<rparr>)
    \<and> rawScore (r\<lparr>pm25_ugm3 := v\<rparr>) = rawScore (r\<lparr>pm25_ugm3 := Num (Fin 12)\<rparr>)
    \<and> calculateSunsetScore (Some (r\<lparr>cloudCover_pct := v\<rparr>))
        = calculateSunsetScore (Some (r\<lparr>cloudCover_pct := Num (Fin 60)\<rparr>))
    \<and> calculateSunsetScore (Some (r\<lparr>humidity_pct := v\<rparr>))
        = calculateSunsetScore (Some (r\<lparr>humidity_pct := Num (Fin 65)\<rparr>))
    \<and> calculateSunsetScore (Some (r\<lparr>pm25_ugm3 := v\<rparr>))
        = calculateSunsetScore (Some (r\<lparr>pm25_ugm3 := Num (Fin 12)\<rparr>))"
  using toFiniteNumber_unusable [OF assms]
  by (simp add: rawScore_def calculateSunsetScore_def)

text \<open>
  C3 at the reading with cloud cover undefined, humidity 50 and PM2.5 5, and at a reading
  whose PM2.5 is NaN; a negative humidity passes unchanged.
\<close>

theorem C3_normalizer_fallback_witness:
  "(\<forall>x. Undefined \<noteq> Num (Fin x))
   \<and> toFiniteNumber Undefined (Fin 60) = Fin 60
   \<and> toFiniteNumber (Num (Fin (- 5))) (Fin 65) = Fin (- 5)
   \<and> rawScore \<lparr>cloudCover_pct = Undefined, humidity_pct = Num (Fin 50), pm25_ugm3 = Num (Fin 5)\<rparr>
      = rawScore \<lparr>cloudCover_pct = Num (Fin 60), humidity_pct = Num (Fin 50),
                  pm25_ugm3 = Num (Fin 5)\<rparr>
   \<and> calculateSunsetScore
        (Some \<lparr>cloudCover_pct = Undefined, humidity_pct = Num (Fin 50), pm25_ugm3 = Num (Fin 5)\<rparr>)
      = calculateSunsetScore
        (Some \<lparr>cloudCover_pct = Num (Fin 60), humidity_pct = Num (Fin 50),
               pm25_ugm3 = Num (Fin 5)\<rparr>)
   \<and> (\<forall>x. Num NaN \<noteq> Num (Fin x))
   \<and> calculateSunsetScore
        (Some \<lparr>cloudCover_pct = Num (Fin 42), humidity_pct = Num (Fin 68), pm25_ugm3 = Num NaN\<rparr>)
      = calculateSunsetScore
        (Some \<lparr>cloudCover_pct = Num (Fin 42), humidity_pct = Num (Fin 68),
               pm25_ugm3 = Num (Fin 12)\<rparr>)"
proof -
  have h: "\<forall>x. Undefined \<noteq> Num (Fin x)" by simp
  have k: "\<forall>x. Num NaN \<noteq> Num (Fin x)" by simp
  show ?thesis
    using h k C3_normalizer_fallback [OF h, of "Fin 60" "- 5"
        "\<lparr>cloudCover_pct = Undefined, humidity_pct = Num (Fin 50), pm25_ugm3 = Num (Fin 5)\<rparr>"]
      C3_normalizer_fallback [OF k, of "Fin 12" 0
        "\<lparr>cloudCover_pct = Num (Fin 42), humidity_pct = Num (Fin 68), pm25_ugm3 = Num NaN\<rparr>"]
    by simp
qed

text \<open>
  C4. \<open>clampScore\<close> maps NaN and both infinities to 0. A finite \<open>x\<close> is rounded to
  the integer \<open>n\<close> with \<open>n - 1/2 \<le> x < n + 1/2\<close> (the nearest integer, the larger
  one at a tie) and \<open>n\<close> is clamped to [0, 100]. For a present reading with all three
  fields absent the normalised inputs are 60, 65 and 12, the raw score is 84.5 and the
  score is 85.
\<close>

theorem C4_clampScore_rounds_half_up:
  "clampScore NaN = Fin 0 \<and> clampScore PInf = Fin 0 \<and> clampScore NInf = Fin 0
   \<and> (of_int n - 1 / 2 \<le> x \<and> x < of_int n + 1 / 2
        \<longrightarrow> clampScore (Fin x) = Fin (of_int (max 0 (min 100 n))))
   \<and> toFiniteNumber Undefined (Fin 60) = Fin 60
   \<and> toFiniteNumber Undefined (Fin 65) = Fin 65
   \<and> toFiniteNumber Undefined (Fin 12) = Fin 12
   \<and> rawScore \<lparr>cloudCover_pct = Undefined, humidity_pct = Undefined, pm25_ugm3 = Undefined\<rparr>
      = Fin 84.5
   \<and> calculateSunsetScore
        (Some \<lparr>cloudCover_pct = Undefined, humidity_pct = Undefined, pm25_ugm3 = Undefined\<rparr>)
      = Some (Fin 85)"
proof -
  have "clampScore (Fin x) = Fin (of_int (max 0 (min 100 n)))"
    if "of_int n - 1 / 2 \<le> x" "x < of_int n + 1 / 2"
  proof -
    have "\<lfloor>x + 1 / 2\<rfloor> = n"
      using that by linarith
    then show ?thesis
      by (simp only: clampScore_Fin)
  qed
  moreover have "rawScore \<lparr>cloudCover_pct = Undefined, humidity_pct = Undefined,
      pm25_ugm3 = Undefined\<rparr> = Fin 84.5"
    by (simp add: rawScore_eq spec_normalize_def raw_fallbacks)
  moreover from this have "calculateSunsetScore
      (Some \<lparr>cloudCover_pct = Undefined, humidity_pct = Undefined, pm25_ugm3 = Undefined\<rparr>)
      = Some (Fin 85)"
    by (simp add: calculateSunsetScore_def clampScore_Fin)
  ultimately show ?thesis
    by (simp add: clampScore_def)
qed

text \<open>
  C4 at the ties 84.5 (rounded up to 85) and -3.5 (rounded up to -3, clamped to 0).
\<close>

theorem C4_clampScore_rounds_half_up_witness:
  "of_int 85 - 1 / 2 \<le> (84.5::real) \<and> (84.5::real) < of_int 85 + 1 / 2
   \<and> clampScore (Fin 84.5) = Fin 85
   \<and> of_int (- 3) - 1 / 2 \<le> (- 3.5::real) \<and> (- 3.5::real) < of_int (- 3) + 1 / 2
   \<and> clampScore (Fin (- 3.5)) = Fin 0"
  using C4_clampScore_rounds_half_up [of 85 "84.5"] C4_clampScore_rounds_half_up [of "- 3" "- 3.5"]
  by simp

text \<open>
  C5. As stated the claim fails: for an absent \<open>predicted\<close> the function returns
  \<open>null\<close>, which is not an integer score.
\<close>

theorem C5_absent_reading_counterexample:
  "calculateSunsetScore None = None"
  by (simp add: calculateSunsetScore_def)

text \<open>
  C5, amended. The function has no failing path: for an absent \<open>predicted\<close> it returns
  \<open>null\<close>, and for every present reading it returns an integer between 0 and 100.
\<close>

theorem C5_total_on_present_reading:
  "calculateSunsetScore None = None
   \<and> (\<exists>n. calculateSunsetScore (Some r) = Some (Fin (of_int n)) \<and> 0 \<le> n \<and> n \<le> 100)"
proof -
  obtain n where "calculateSunsetScore (Some r) = Some (Fin (of_int n))"
    and "15 \<le> n" and "n \<le> 100"
    using score_range by blast
  then have "\<exists>n. calculateSunsetScore (Some r) = Some (Fin (of_int n)) \<and> 0 \<le> n \<and> n \<le> 100"
    by (intro exI [of _ n]) simp
  then show ?thesis by (simp add: calculateSunsetScore_def)
qed

text \<open>
  C6. As stated the claim fails: cloud covers 96 and 100 lie on the same side of 45, and
  both have \<open>cloudTerm\<close> 0, since the term is floored at 0 from distance 50 on.
\<close>

theorem C6_floored_counterexample:
  "(45::real) \<le> 96 \<and> (96::real) < 100 \<and> cloudTerm (Fin 96) = Fin 0
   \<and> cloudTerm (Fin 100) = Fin 0"
  by (simp add: cloudTerm_Fin cloud_96 cloud_worst)

text \<open>
  C6, amended. For \<open>a\<close> and \<open>b\<close> on the same side of 45 with \<open>b\<close> the farther one,
  \<open>cloudTerm a \<ge> cloudTerm b\<close>; and \<open>cloudTerm a > cloudTerm b\<close> when the two are at least
  \<open>2\<close> to the power \<open>-42\<close> apart and \<open>a\<close> is at most \<open>50 - 1 / 2 ^ 42\<close> away from 45.
  Closer values can round to the same term, and from distance 50 on both terms are 0.
\<close>

theorem C6_cloudTerm_nonincreasing:
  assumes "(45 \<le> a \<and> a < b) \<or> (b < a \<and> a \<le> 45)"
  shows "\<exists>x y. cloudTerm (Fin a) = Fin x \<and> cloudTerm (Fin b) = Fin y \<and> y \<le> x
           \<and> (1 / 2 ^ 42 \<le> \<bar>b - a\<bar> \<and> \<bar>45 - a\<bar> \<le> 50 - 1 / 2 ^ 42 \<longrightarrow> y < x)"
proof -
  have "(45 \<le> a \<and> a \<le> b) \<or> (b \<le> a \<and> a \<le> 45)"
    using assms by auto
  then have "rounded_cloudTerm b \<le> rounded_cloudTerm a"
    by (rule rounded_cloudTerm_antimono)
  moreover have "rounded_cloudTerm b < rounded_cloudTerm a"
    if "1 / 2 ^ 42 \<le> \<bar>b - a\<bar>" "\<bar>45 - a\<bar> \<le> 50 - 1 / 2 ^ 42"
    using assms that by (rule rounded_cloudTerm_strict)
  ultimately show ?thesis
    unfolding cloudTerm_Fin by blast
qed

text \<open>
  C6, amended, at cloud covers 50 and 60.
\<close>

theorem C6_cloudTerm_nonincreasing_witness:
  "((45::real) \<le> 50 \<and> (50::real) < 60 \<or> (60::real) < 50 \<and> (50::real) \<le> 45)
   \<and> 1 / 2 ^ 42 \<le> \<bar>60 - 50 :: real\<bar> \<and> \<bar>45 - 50 :: real\<bar> \<le> 50 - 1 / 2 ^ 42
   \<and> (\<exists>x y. cloudTerm (Fin 50) = Fin x \<and> cloudTerm (Fin 60) = Fin y \<and> y < x)"
proof -
  have h: "((45::real) \<le> 50 \<and> (50::real) < 60) \<or> ((60::real) < 50 \<and> (50::real) \<le> 45)"
    by simp
  have k: "1 / 2 ^ 42 \<le> \<bar>60 - 50 :: real\<bar> \<and> \<bar>45 - 50 :: real\<bar> \<le> 50 - 1 / 2 ^ 42"
    by simp
  show ?thesis
    using h k C6_cloudTerm_nonincreasing [OF h] by blast
qed

text \<open>
  C7. Raising the humidity from a value of at least 55 never raises \<open>humidityTerm\<close>,
  and raising PM2.5 from a value of at least 12 never raises \<open>pmTerm\<close>. Each term
  depends on its own input only, so the other inputs are fixed.
\<close>

theorem C7_humidity_pm_nonincreasing:
  "(55 \<le> h1 \<and> h1 \<le> h2 \<longrightarrow>
      (\<exists>x y. humidityTerm (Fin h1) = Fin x \<and> humidityTerm (Fin h2) = Fin y \<and> y \<le> x))
   \<and> (12 \<le> p1 \<and> p1 \<le> p2 \<longrightarrow>
      (\<exists>x y. pmTerm (Fin p1) = Fin x \<and> pmTerm (Fin p2) = Fin y \<and> y \<le> x))"
  by (simp add: humidityTerm_Fin pmTerm_Fin rounded_humidityTerm_antimono
      rounded_pmTerm_antimono)

text \<open>
  C7 at humidities 60 and 70 and PM2.5 values 13 and 20.
\<close>

theorem C7_humidity_pm_nonincreasing_witness:
  "(55::real) \<le> 60 \<and> (60::real) \<le> 70
   \<and> (\<exists>x y. humidityTerm (Fin 60) = Fin x \<and> humidityTerm (Fin 70) = Fin y \<and> y \<le> x)
   \<and> (12::real) \<le> 13 \<and> (13::real) \<le> 20
   \<and> (\<exists>x y. pmTerm (Fin 13) = Fin x \<and> pmTerm (Fin 20) = Fin y \<and> y \<le> x)"
  using C7_humidity_pm_nonincreasing [of 60 70 13 20] by simp

text \<open>
  C8. The documented test vectors, the decimal literals 7.4 and 91.4 read as the source
  language reads them, as the doubles nearest to them: (45, 50, 10) scores 100;
  (42, 68, 7.4) has raw score 91.4 and scores 91; (100, 100, 100) has raw score 15 and
  scores 15.
\<close>

theorem C8_test_vectors:
  "calculateSunsetScore
     (Some \<lparr>cloudCover_pct = Num (Fin 45), humidity_pct = Num (Fin 50), pm25_ugm3 = Num (Fin 10)\<rparr>)
     = Some (Fin 100)
   \<and> rawScore \<lparr>cloudCover_pct = Num (Fin 42), humidity_pct = Num (Fin 68),
                pm25_ugm3 = Num (number_literal 7.4)\<rparr> = number_literal 91.4
   \<and> number_literal 7.4 = Fin (4165829655317709 / 562949953421312)
   \<and> number_literal 91.4 = Fin (3215851608919245 / 35184372088832)
   \<and> calculateSunsetScore
     (Some \<lparr>cloudCover_pct = Num (Fin 42), humidity_pct = Num (Fin 68),
            pm25_ugm3 = Num (number_literal 7.4)\<rparr>)
     = Some (Fin 91)
   \<and> rawScore \<lparr>cloudCover_pct = Num (Fin 100), humidity_pct = Num (Fin 100),
                pm25_ugm3 = Num (Fin 100)\<rparr> = Fin 15
   \<and> calculateSunsetScore
     (Some \<lparr>cloudCover_pct = Num (Fin 100), humidity_pct = Num (Fin 100),
            pm25_ugm3 = Num (Fin 100)\<rparr>)
     = Some (Fin 15)"
proof -
  have l: "number_literal 7.4 = Fin (4165829655317709 / 562949953421312)"
    "number_literal 91.4 = Fin (3215851608919245 / 35184372088832)"
    using literals(1,3) by simp_all
  show ?thesis
    unfolding l
    by (simp add: calculateSunsetScore_def clampScore_Fin rawScore_eq spec_normalize_def
        raw_ideal raw_sample raw_worst)
qed

text \<open>
  C9. For every present reading the score is an integer between 15 and 100: each of the
  three terms lies between 0 and its cap (35, 20, 30), and the baseline 15 is added.
\<close>

theorem C9_score_at_least_baseline:
  "(\<exists>n. calculateSunsetScore (Some r) = Some (Fin (of_int n)) \<and> 15 \<le> n \<and> n \<le> 100)
   \<and> (\<exists>x. cloudTerm (toFiniteNumber (cloudCover_pct r) (Fin 60)) = Fin x \<and> 0 \<le> x \<and> x \<le> 35)
   \<and> (\<exists>x. humidityTerm (toFiniteNumber (humidity_pct r) (Fin 65)) = Fin x \<and> 0 \<le> x \<and> x \<le> 20)
   \<and> (\<exists>x. pmTerm (toFiniteNumber (pm25_ugm3 r) (Fin 12)) = Fin x \<and> 0 \<le> x \<and> x \<le> 30)"
  using score_range [of r]
  by (simp add: toFiniteNumber_Fin cloudTerm_Fin humidityTerm_Fin pmTerm_Fin
      rounded_cloudTerm_bounds rounded_humidityTerm_bounds rounded_pmTerm_bounds)

text \<open>
  C10. For every present reading the three normalised operands are finite, so are the three
  terms and their sum with the baseline, and \<open>clampScore\<close> therefore takes its second
  branch: the branch returning 0 for a non-finite argument is not reached from
  \<open>calculateSunsetScore\<close>.
\<close>

theorem C10_clampScore_argument_finite:
  "isFinite (toFiniteNumber (cloudCover_pct r) (Fin 60))
   \<and> isFinite (toFiniteNumber (humidity_pct r) (Fin 65))
   \<and> isFinite (toFiniteNumber (pm25_ugm3 r) (Fin 12))
   \<and> isFinite (cloudTerm (toFiniteNumber (cloudCover_pct r) (Fin 60)))
   \<and> isFinite (humidityTerm (toFiniteNumber (humidity_pct r) (Fin 65)))
   \<and> isFinite (pmTerm (toFiniteNumber (pm25_ugm3 r) (Fin 12)))
   \<and> isFinite (rawScore r)
   \<and> clampScore (rawScore r) = js_max (Fin 0) (js_min (Fin 100) (js_round (rawScore r)))"
  by (simp add: toFiniteNumber_Fin cloudTerm_Fin humidityTerm_Fin pmTerm_Fin rawScore_eq
      clampScore_def)

end
